theory Spec2Isabelle
  imports Complex_Main
begin

section \<open>Strings and regular expressions of the controller\<close>

text \<open>
  A JavaScript string is modelled as a list of code units below 256 (the Latin-1 range),
  one \<^typ>\<open>char\<close> each. In that range the characters matched by the regular-expression
  class \<^verbatim>\<open>\s\<close>, and removed by \<^verbatim>\<open>String.prototype.trim\<close>, are TAB, LF, VT, FF, CR,
  SPACE and NO-BREAK SPACE.
\<close>

definition isWhiteSpace :: "char \<Rightarrow> bool" where
  "isWhiteSpace c = (of_char c \<in> {9, 10, 11, 12, 13, 32, 160 :: nat})"

definition isDigit :: "char \<Rightarrow> bool" where
  "isDigit c = (48 \<le> (of_char c :: nat) \<and> (of_char c :: nat) \<le> 57)"

definition trim :: "string \<Rightarrow> string" where
  "trim s = rev (dropWhile isWhiteSpace (rev (dropWhile isWhiteSpace s)))"

text \<open>The members of a bracket expression, and a (possibly negated) character class.\<close>

datatype citem =
    Lit char                \<comment> \<open>a literal or escaped character, as \<^verbatim>\<open>@\<close> or \<^verbatim>\<open>\.\<close>\<close>
  | Range char char         \<comment> \<open>\<^verbatim>\<open>a-b\<close>\<close>
  | ClsSpace                \<comment> \<open>\<^verbatim>\<open>\s\<close>\<close>
  | ClsDigit                \<comment> \<open>\<^verbatim>\<open>\d\<close>\<close>

datatype cclass = OneOf "citem list" | NoneOf "citem list"

fun citem_match :: "citem \<Rightarrow> char \<Rightarrow> bool" where
  "citem_match (Lit a) c = (c = a)"
| "citem_match (Range a b) c = ((of_char a :: nat) \<le> of_char c \<and> (of_char c :: nat) \<le> of_char b)"
| "citem_match ClsSpace c = isWhiteSpace c"
| "citem_match ClsDigit c = isDigit c"

fun cclass_match :: "cclass \<Rightarrow> char \<Rightarrow> bool" where
  "cclass_match (OneOf is) c = (\<exists>i \<in> set is. citem_match i c)"
| "cclass_match (NoneOf is) c = (\<not> (\<exists>i \<in> set is. citem_match i c))"

datatype rx =
    RNone                   \<comment> \<open>matches nothing\<close>
  | REps                    \<comment> \<open>matches the empty string\<close>
  | RCls cclass
  | RSeq rx rx
  | RAlt rx rx
  | RStar rx

definition ROpt :: "rx \<Rightarrow> rx" where   \<comment> \<open>\<^verbatim>\<open>r?\<close>\<close>
  "ROpt r = RAlt r REps"

definition RPlus :: "rx \<Rightarrow> rx" where  \<comment> \<open>\<^verbatim>\<open>r+\<close>\<close>
  "RPlus r = RSeq r (RStar r)"

fun RUpTo :: "nat \<Rightarrow> rx \<Rightarrow> rx" where  \<comment> \<open>\<^verbatim>\<open>r{0,n}\<close>\<close>
  "RUpTo 0 r = REps"
| "RUpTo (Suc n) r = RAlt (RSeq r (RUpTo n r)) REps"

fun nullable :: "rx \<Rightarrow> bool" where
  "nullable RNone = False"
| "nullable REps = True"
| "nullable (RCls _) = False"
| "nullable (RSeq r s) = (nullable r \<and> nullable s)"
| "nullable (RAlt r s) = (nullable r \<or> nullable s)"
| "nullable (RStar _) = True"

fun deriv :: "char \<Rightarrow> rx \<Rightarrow> rx" where
  "deriv c RNone = RNone"
| "deriv c REps = RNone"
| "deriv c (RCls k) = (if cclass_match k c then REps else RNone)"
| "deriv c (RSeq r s) =
     (if nullable r then RAlt (RSeq (deriv c r) s) (deriv c s) else RSeq (deriv c r) s)"
| "deriv c (RAlt r s) = RAlt (deriv c r) (deriv c s)"
| "deriv c (RStar r) = RSeq (deriv c r) (RStar r)"

text \<open>
  \<^verbatim>\<open>regex.test(s)\<close> for a pattern anchored by \<^verbatim>\<open>^\<close> and \<^verbatim>\<open>$\<close> and without flags:
  the whole string must match.
\<close>

fun rx_test :: "rx \<Rightarrow> string \<Rightarrow> bool" where
  "rx_test r [] = nullable r"
| "rx_test r (c # cs) = rx_test (deriv c r) cs"

text \<open>\<^verbatim>\<open>s.replace(/[...]/g, '')\<close>: every character of the class is removed.\<close>

definition replace_all_empty :: "cclass \<Rightarrow> string \<Rightarrow> string" where
  "replace_all_empty k s = filter (\<lambda>c. \<not> cclass_match k c) s"

text \<open>\<^verbatim>\<open>/^[^\s@]+@[^\s@]+\.[^\s@]+$/\<close>\<close>

definition emailRegex :: rx where
  "emailRegex =
     RSeq (RPlus (RCls (NoneOf [ClsSpace, Lit CHR ''@''])))
    (RSeq (RCls (OneOf [Lit CHR ''@'']))
    (RSeq (RPlus (RCls (NoneOf [ClsSpace, Lit CHR ''@''])))
    (RSeq (RCls (OneOf [Lit CHR ''.'']))
          (RPlus (RCls (NoneOf [ClsSpace, Lit CHR ''@'']))))))"

text \<open>\<^verbatim>\<open>/^[\+]?[1-9][\d]{0,15}$/\<close>\<close>

definition phoneRegex :: rx where
  "phoneRegex =
     RSeq (ROpt (RCls (OneOf [Lit CHR ''+''])))
    (RSeq (RCls (OneOf [Range CHR ''1'' CHR ''9'']))
          (RUpTo 15 (RCls (OneOf [ClsDigit]))))"

text \<open>\<^verbatim>\<open>/[\s\-\(\)]/g\<close>\<close>

definition phoneStrip :: cclass where
  "phoneStrip = OneOf [ClsSpace, Lit CHR ''-'', Lit CHR ''('', Lit CHR '')'']"

text \<open>
  Language of a regular expression; used to relate \<open>rx_test\<close> to descriptions in words.
\<close>

definition conc :: "string set \<Rightarrow> string set \<Rightarrow> string set" where
  "conc A B = {xs @ ys | xs ys. xs \<in> A \<and> ys \<in> B}"

inductive_set star :: "string set \<Rightarrow> string set" for A :: "string set" where
  star_nil: "[] \<in> star A"
| star_app: "xs \<in> A \<Longrightarrow> ys \<in> star A \<Longrightarrow> xs @ ys \<in> star A"

fun lang :: "rx \<Rightarrow> string set" where
  "lang RNone = {}"
| "lang REps = {[]}"
| "lang (RCls k) = {[c] | c. cclass_match k c}"
| "lang (RSeq r s) = conc (lang r) (lang s)"
| "lang (RAlt r s) = lang r \<union> lang s"
| "lang (RStar r) = star (lang r)"

section \<open>The notification markup and the host's parser\<close>

definition nl :: string where
  "nl = [CHR 0x0A]"

definition spaces :: "nat \<Rightarrow> string" where
  "spaces n = replicate n CHR '' ''"

text \<open>The template literal assigned to \<^verbatim>\<open>innerHTML\<close>; the message is interpolated as it is.\<close>

definition markupBefore :: string where
  \<open>markupBefore =
     nl @ spaces 12 @ ''<div class="experience-notification__content">'' @
     nl @ spaces 16 @ ''<span class="experience-notification__message">''\<close>

definition markupAfter :: string where
  \<open>markupAfter =
     ''</span>'' @
     nl @ spaces 16 @ ''<button class="experience-notification__close" type="button" aria-label="Close">'' @
     nl @ spaces 20 @ ''<i class="bi bi-x-lg"></i>'' @
     nl @ spaces 16 @ ''</button>'' @
     nl @ spaces 12 @ ''</div>'' @
     nl @ spaces 8\<close>

definition notificationMarkup :: "string \<Rightarrow> string" where
  "notificationMarkup message = markupBefore @ message @ markupAfter"

text \<open>
  What the page shows as the message is the text content of the element of class
  \<^verbatim>\<open>experience-notification__message\<close> that the host builds from \<^verbatim>\<open>innerHTML\<close>. The host's
  parser is modelled for a fragment of HTML only: text without \<^verbatim>\<open><\<close>, \<^verbatim>\<open>&\<close>, NUL and CR, and
  properly nested start and end tags, without attributes, of the elements \<^verbatim>\<open>b\<close>, \<^verbatim>\<open>i\<close>,
  \<^verbatim>\<open>em\<close>, \<^verbatim>\<open>strong\<close> and \<^verbatim>\<open>span\<close>. \<open>scan\<close> reads the content of the message element
  up to its end tag, with the stack of the elements open inside it, and collects the text;
  \<open>None\<close> is markup outside the fragment.
\<close>

definition isLower :: "char \<Rightarrow> bool" where
  "isLower c = (97 \<le> (of_char c :: nat) \<and> (of_char c :: nat) \<le> 122)"

definition plainChar :: "char \<Rightarrow> bool" where
  "plainChar c = (c \<noteq> CHR ''<'' \<and> c \<noteq> CHR ''&'' \<and> c \<noteq> CHR 0x00 \<and> c \<noteq> CHR 0x0D)"

definition phrasing :: "string list" where
  "phrasing = [''b'', ''i'', ''em'', ''strong'', ''span'']"

datatype mode = Data | TagOpen | TagName bool string

fun scan :: "mode \<Rightarrow> string list \<Rightarrow> string \<Rightarrow> string \<Rightarrow> string option" where
  "scan m stack acc [] = None"
| "scan Data stack acc (c # cs) =
     (if c = CHR ''<'' then scan TagOpen stack acc cs
      else if plainChar c then scan Data stack (acc @ [c]) cs
      else None)"
| "scan TagOpen stack acc (c # cs) =
     (if c = CHR ''/'' then scan (TagName True []) stack acc cs
      else if isLower c then scan (TagName False [c]) stack acc cs
      else None)"
| "scan (TagName closing name) stack acc (c # cs) =
     (if isLower c then scan (TagName closing (name @ [c])) stack acc cs
      else if c = CHR ''>'' then
        (if closing then
           (case stack of
              [] \<Rightarrow> if name = ''span'' then Some acc else None
            | innermost # outer \<Rightarrow> if name = innermost then scan Data outer acc cs else None)
         else if name \<in> set phrasing then scan Data (name # stack) acc cs
         else None)
      else None)"

text \<open>The input after the first occurrence of a pattern.\<close>

fun afterFirst :: "string \<Rightarrow> string \<Rightarrow> string option" where
  "afterFirst pat [] = (if pat = [] then Some [] else None)"
| "afterFirst pat (c # cs) =
     (if take (length pat) (c # cs) = pat then Some (drop (length pat) (c # cs))
      else afterFirst pat cs)"

definition messageOpen :: string where
  \<open>messageOpen = ''<span class="experience-notification__message">''\<close>

definition messageText :: "string \<Rightarrow> string option" where
  "messageText html =
     (case afterFirst messageOpen html of None \<Rightarrow> None | Some rest \<Rightarrow> scan Data [] [] rest)"

text \<open>
  What else the controller asks of the element built from the markup: whether it holds an
  element of class \<^verbatim>\<open>experience-notification__close\<close>, and how many elements of class
  \<^verbatim>\<open>experience-notification\<close> it holds.
\<close>

record banner =
  closeControl :: bool
  nestedNotifications :: nat

section \<open>The host\<close>

text \<open>
  \<^verbatim>\<open>new Date(value)\<close> and the start of the current day belong to the host, not to the
  controller. They are parameters: \<open>parseDate\<close> gives the time value of a string in
  milliseconds (\<open>None\<close> for an Invalid Date, whose comparisons are all false), and
  \<open>startOfDay\<close> gives \<^verbatim>\<open>new Date()\<close> after \<^verbatim>\<open>setHours(0, 0, 0, 0)\<close> at a given clock value.
  The host's HTML parser is a parameter too, where the markup is outside the fragment
  modelled above: \<open>parseBanner\<close> gives the answers for the markup assigned to \<^verbatim>\<open>innerHTML\<close>.
\<close>

record env =
  parseDate :: "string \<Rightarrow> int option"
  startOfDay :: "nat \<Rightarrow> int"
  parseBanner :: "string \<Rightarrow> banner"

text \<open>
  A concrete host in the UTC time zone, for the \<^verbatim>\<open>YYYY-MM-DDTHH:MM\<close> strings a
  \<^verbatim>\<open>datetime-local\<close> input holds. Of the markup outside the modelled fragment it parses two
  banners as browsers do: a message that is a \<^verbatim>\<open>div\<close> of class \<^verbatim>\<open>experience-notification\<close>
  gives one such element inside the banner, and the message \<^verbatim>\<open><!--\<close> opens a comment that
  runs to the end of the markup and takes the close control with it. Any other markup it
  takes to hold the elements of the template only.
\<close>

fun digitsVal :: "string \<Rightarrow> nat option" where
  "digitsVal [] = None"
| "digitsVal cs = (if list_all isDigit cs
     then Some (foldl (\<lambda>n c. 10 * n + (of_char c - 48)) 0 cs) else None)"

definition daysFromCivil :: "int \<Rightarrow> int \<Rightarrow> int \<Rightarrow> int" where
  "daysFromCivil y m d =
     (let y' = (if m \<le> 2 then y - 1 else y);
          era = y' div 400;
          yoe = y' - era * 400;
          doy = (153 * (if m > 2 then m - 3 else m + 9) + 2) div 5 + d - 1;
          doe = yoe * 365 + yoe div 4 - yoe div 100 + doy
      in era * 146097 + doe - 719468)"

definition utcParse :: "string \<Rightarrow> int option" where
  "utcParse s =
     (if length s = 16 \<and> s ! 4 = CHR ''-'' \<and> s ! 7 = CHR ''-'' \<and> s ! 10 = CHR ''T'' \<and> s ! 13 = CHR '':''
      then
        case digitsVal (take 4 s) of None \<Rightarrow> None | Some y \<Rightarrow>
        case digitsVal (take 2 (drop 5 s)) of None \<Rightarrow> None | Some m \<Rightarrow>
        case digitsVal (take 2 (drop 8 s)) of None \<Rightarrow> None | Some d \<Rightarrow>
        case digitsVal (take 2 (drop 11 s)) of None \<Rightarrow> None | Some h \<Rightarrow>
        case digitsVal (take 2 (drop 14 s)) of None \<Rightarrow> None | Some mi \<Rightarrow>
          if 1 \<le> m \<and> m \<le> 12 \<and> 1 \<le> d \<and> d \<le> 31 \<and> h < 24 \<and> mi < 60
          then Some ((daysFromCivil (int y) (int m) (int d) * 1440 + int h * 60 + int mi) * 60000)
          else None
      else None)"

definition browserBanner :: "string \<Rightarrow> banner" where
  \<open>browserBanner html =
     (if html = notificationMarkup ''<div class="experience-notification"></div>''
      then \<lparr> closeControl = True, nestedNotifications = 1 \<rparr>
      else if html = notificationMarkup ''<!--''
      then \<lparr> closeControl = False, nestedNotifications = 0 \<rparr>
      else \<lparr> closeControl = True, nestedNotifications = 0 \<rparr>)\<close>

definition utcEnv :: env where
  "utcEnv = \<lparr> parseDate = utcParse, startOfDay = (\<lambda>t. int (t - t mod 86400000)),
              parseBanner = browserBanner \<rparr>"

section \<open>The page\<close>

datatype tagName = InputEl | SelectEl

text \<open>
  An \<^verbatim>\<open>input\<close> or \<^verbatim>\<open>select\<close> element of a form. \<open>parentNode\<close> identifies the element's
  parent; \<open>isInvalid\<close> is the presence of the class \<^verbatim>\<open>is-invalid\<close>; \<open>defaultValue\<close> is the
  value \<^verbatim>\<open>form.reset()\<close> restores.
\<close>

record field =
  tag :: tagName
  ftype :: string
  fname :: string
  elemId :: string
  required :: bool
  fvalue :: string
  defaultValue :: string
  parentNode :: nat
  isInvalid :: bool

record button =
  textContent :: string
  disabled :: bool

text \<open>
  An element of class \<^verbatim>\<open>experience-notification\<close> attached to the document body, created
  by \<^verbatim>\<open>showNotification\<close>: \<open>nested\<close> is the number of elements of that class its markup
  created inside it, and \<open>closable\<close> says that its close control was found and has its
  listener.
\<close>

record notification =
  nid :: nat
  className :: string
  innerHTML :: string
  backgroundColor :: string
  transform :: string
  nested :: nat
  closable :: bool

text \<open>
  An element of class \<^verbatim>\<open>invalid-feedback\<close>: the node it is a child of, its place in the
  document, and its text.
\<close>

record feedbackDiv =
  holder :: nat
  place :: nat
  divText :: string

record modalEl =
  modalId :: string
  shown :: bool

record dropdownEl =
  dropdownId :: string
  dropdownClass :: string

text \<open>
  A widget handle of the UI library, identified by the position of the element it was
  constructed for among the elements of its kind.
\<close>

datatype widget = Modal nat | Dropdown nat

text \<open>
  The callbacks passed to \<^verbatim>\<open>setTimeout\<close>, each with the variables its closure captures:
  the original label of the submit control, or the notification element.
\<close>

datatype task =
    BookingDone string
  | NewsletterDone string
  | SlideIn nat
  | AutoHide nat
  | RemoveNotification nat

datatype error = TypeError

text \<open>
  The document and the controller. Nodes are identified by numbers: \<open>ancestors n\<close> are the
  nodes that \<open>n\<close> lies in, and \<open>endTag n\<close> is the place of the end of \<open>n\<close> in the document.
  \<open>feedbackDivs\<close> holds the \<^verbatim>\<open>.invalid-feedback\<close> elements in document order. \<open>timers\<close> holds
  the pending timeouts with their due times, in the order they were set. The booking form
  and its submit control exist whenever their handlers are bound (\<^verbatim>\<open>bindBookingFormEvents\<close>
  checks both); the newsletter form's submit button is looked up only when the handler runs.
  \<open>bookingFormPresent\<close> says that \<^verbatim>\<open>.experience-booking-modal__body form\<close>, which the callback
  of a submission resets, finds the booking form.
\<close>

record page =
  now :: nat
  timers :: "(nat \<times> task) list"
  nextNid :: nat
  notifications :: "notification list"
  bookingFields :: "field list"
  bookingFormPresent :: bool
  feedbackDivs :: "feedbackDiv list"
  ancestors :: "nat \<Rightarrow> nat list"
  endTag :: "nat \<Rightarrow> nat"
  submitBtn :: button
  newsletterFields :: "field list"
  newsletterBtn :: "button option"
  modalElements :: "modalEl list"
  dropdownElements :: "dropdownEl list"
  modals :: "string \<rightharpoonup> widget"
  dropdowns :: "string \<rightharpoonup> widget"

section \<open>Field validation\<close>

text \<open>
  Fields of the booking form are addressed by their position in document order.
  \<^verbatim>\<open>field.parentNode.querySelector('.invalid-feedback')\<close> finds the first such element
  among the descendants of the parent, in document order.
\<close>

definition inside :: "page \<Rightarrow> nat \<Rightarrow> nat \<Rightarrow> bool" where
  "inside p n parent = (n = parent \<or> parent \<in> set (ancestors p n))"

text \<open>The texts of the \<^verbatim>\<open>.invalid-feedback\<close> elements below a node, in document order.\<close>

definition feedback :: "page \<Rightarrow> nat \<Rightarrow> string list" where
  "feedback p parent = map divText (filter (\<lambda>d. inside p (holder d) parent) (feedbackDivs p))"

fun removeFirst :: "('a \<Rightarrow> bool) \<Rightarrow> 'a list \<Rightarrow> 'a list" where
  "removeFirst P [] = []"
| "removeFirst P (x # xs) = (if P x then xs else x # removeFirst P xs)"

definition clearFieldError :: "nat \<Rightarrow> page \<Rightarrow> page" where
  "clearFieldError i p =
     (let field = bookingFields p ! i in
      p\<lparr> bookingFields := (bookingFields p)[i := field\<lparr>isInvalid := False\<rparr>],
         feedbackDivs := removeFirst (\<lambda>d. inside p (holder d) (parentNode field)) (feedbackDivs p) \<rparr>)"

text \<open>
  \<^verbatim>\<open>appendChild\<close> makes the new element the last child of the parent: in document order it
  follows the descendants of the parent and whatever ends before the parent does.
\<close>

fun insertAfterLast :: "('a \<Rightarrow> bool) \<Rightarrow> 'a \<Rightarrow> 'a list \<Rightarrow> 'a list" where
  "insertAfterLast P y [] = [y]"
| "insertAfterLast P y (x # xs) =
     (if list_ex P (x # xs) then x # insertAfterLast P y xs else y # x # xs)"

definition showFieldError :: "nat \<Rightarrow> string \<Rightarrow> page \<Rightarrow> page" where
  "showFieldError i message p =
     (let p1 = clearFieldError i p;
          field = bookingFields p1 ! i;
          parent = parentNode field;
          errorDiv = \<lparr> holder = parent, place = endTag p1 parent, divText = message \<rparr> in
      p1\<lparr> bookingFields := (bookingFields p1)[i := field\<lparr>isInvalid := True\<rparr>],
          feedbackDivs :=
            insertAfterLast (\<lambda>d. inside p1 (holder d) parent \<or> place d < endTag p1 parent)
              errorDiv (feedbackDivs p1) \<rparr>)"

text \<open>The checks of \<^verbatim>\<open>validateField\<close>, in the source's order; a later check overrides an earlier one.\<close>

definition checkField :: "env \<Rightarrow> nat \<Rightarrow> field \<Rightarrow> bool \<times> string" where
  "checkField e clock field =
     (let v = trim (fvalue field);
          r0 = (True, []);
          r1 = (if required field \<and> v = [] then (False, ''This field is required'') else r0);
          r2 = (if ftype field = ''email'' \<and> v \<noteq> [] \<and> \<not> rx_test emailRegex v
                then (False, ''Please enter a valid email address'') else r1);
          r3 = (if ftype field = ''tel'' \<and> v \<noteq> [] \<and> \<not> rx_test phoneRegex (replace_all_empty phoneStrip v)
                then (False, ''Please enter a valid phone number'') else r2);
          r4 = (if ftype field = ''datetime-local'' \<and> v \<noteq> [] \<and>
                   (case parseDate e v of None \<Rightarrow> False | Some selectedDate \<Rightarrow> selectedDate < startOfDay e clock)
                then (False, ''Please select a future date'') else r3)
      in r4)"

definition validateField :: "env \<Rightarrow> nat \<Rightarrow> page \<Rightarrow> bool \<times> page" where
  "validateField e i p =
     (case checkField e (now p) (bookingFields p ! i) of
        (isValid, errorMessage) \<Rightarrow>
          if \<not> isValid then (False, showFieldError i errorMessage p)
          else (True, clearFieldError i p))"

text \<open>\<^verbatim>\<open>requiredFields.forEach\<close>: every required field is validated, none is skipped.\<close>

fun validateEach :: "env \<Rightarrow> nat list \<Rightarrow> bool \<times> page \<Rightarrow> bool \<times> page" where
  "validateEach e [] r = r"
| "validateEach e (i # is) (isValid, p) =
     (case validateField e i p of
        (ok, p') \<Rightarrow> validateEach e is (if \<not> ok then False else isValid, p'))"

text \<open>
  \<^verbatim>\<open>:first-of-type\<close> and \<^verbatim>\<open>:last-of-type\<close>: no earlier (later) sibling with the same tag
  name. The siblings of a form field that are inputs or selects are fields of the form.
\<close>

definition sameTypeSibling :: "field list \<Rightarrow> nat \<Rightarrow> nat \<Rightarrow> bool" where
  "sameTypeSibling fs i j =
     (parentNode (fs ! j) = parentNode (fs ! i) \<and> tag (fs ! j) = tag (fs ! i))"

definition firstOfType :: "field list \<Rightarrow> nat \<Rightarrow> bool" where
  "firstOfType fs i = list_all (\<lambda>j. \<not> sameTypeSibling fs i j) [0..<i]"

definition lastOfType :: "field list \<Rightarrow> nat \<Rightarrow> bool" where
  "lastOfType fs i = list_all (\<lambda>j. \<not> sameTypeSibling fs i j) [Suc i..<length fs]"

definition isDatetimeInput :: "field \<Rightarrow> bool" where
  "isDatetimeInput f = (tag f = InputEl \<and> ftype f = ''datetime-local'')"

text \<open>\<^verbatim>\<open>form.querySelector\<close>: the first match in document order, if any.\<close>

definition checkinInput :: "field list \<Rightarrow> nat option" where
  "checkinInput fs = find (\<lambda>i. isDatetimeInput (fs ! i) \<and> firstOfType fs i) [0..<length fs]"

definition checkoutInput :: "field list \<Rightarrow> nat option" where
  "checkoutInput fs = find (\<lambda>i. isDatetimeInput (fs ! i) \<and> lastOfType fs i) [0..<length fs]"

text \<open>
  The date-range condition of \<^verbatim>\<open>validateBookingForm\<close>: the checkout field on which the
  range error is shown, if the condition holds.
\<close>

definition rangeViolation :: "env \<Rightarrow> field list \<Rightarrow> nat option" where
  "rangeViolation e fs =
     (case checkinInput fs of None \<Rightarrow> None | Some ci \<Rightarrow>
      case checkoutInput fs of None \<Rightarrow> None | Some co \<Rightarrow>
        if fvalue (fs ! ci) \<noteq> [] \<and> fvalue (fs ! co) \<noteq> [] then
          (case parseDate e (fvalue (fs ! ci)) of None \<Rightarrow> None | Some checkinDate \<Rightarrow>
           case parseDate e (fvalue (fs ! co)) of None \<Rightarrow> None | Some checkoutDate \<Rightarrow>
             if checkoutDate \<le> checkinDate then Some co else None)
        else None)"

definition requiredFields :: "field list \<Rightarrow> nat list" where
  "requiredFields fs = filter (\<lambda>i. required (fs ! i)) [0..<length fs]"

definition validateBookingForm :: "env \<Rightarrow> page \<Rightarrow> bool \<times> page" where
  "validateBookingForm e p =
     (case validateEach e (requiredFields (bookingFields p)) (True, p) of
        (isValid, p1) \<Rightarrow>
          (case rangeViolation e (bookingFields p1) of
             Some co \<Rightarrow> (False, showFieldError co ''Check-out date must be after check-in date'' p1)
           | None \<Rightarrow> (isValid, p1)))"

text \<open>
  \<^verbatim>\<open>data\<close> is a plain object: the assignment of a string to its key \<^verbatim>\<open>__proto__\<close> stores
  nothing.
\<close>

definition assign :: "(string \<rightharpoonup> string) \<Rightarrow> string \<Rightarrow> string \<Rightarrow> (string \<rightharpoonup> string)" where
  "assign data key v = (if key = ''__proto__'' then data else data(key \<mapsto> v))"

definition collectFormData :: "field list \<Rightarrow> (string \<rightharpoonup> string)" where
  "collectFormData fs =
     foldl (\<lambda>data input.
              if fname input \<noteq> [] \<or> elemId input \<noteq> []
              then assign data (if fname input \<noteq> [] then fname input else elemId input) (fvalue input)
              else data)
           Map.empty fs"

section \<open>Notifications\<close>

text \<open>
  \<^verbatim>\<open>document.createElement\<close> gives a node that is neither in the page nor held by a pending
  callback.
\<close>

fun taskNids :: "task \<Rightarrow> nat list" where
  "taskNids (BookingDone _) = []"
| "taskNids (NewsletterDone _) = []"
| "taskNids (SlideIn k) = [k]"
| "taskNids (AutoHide k) = [k]"
| "taskNids (RemoveNotification k) = [k]"

definition usedNids :: "page \<Rightarrow> nat list" where
  "usedNids p = map nid (notifications p) @ concat (map (\<lambda>t. taskNids (snd t)) (timers p))"

definition freshNid :: "page \<Rightarrow> nat" where
  "freshNid p = fold max (map Suc (usedNids p)) (nextNid p)"

text \<open>
  The element built from the banner's markup. A message of plain text is inside the
  modelled fragment: the close control of the template is there, and no element of class
  \<^verbatim>\<open>experience-notification\<close> is created inside. For any other message the host answers.
\<close>

definition bannerOf :: "env \<Rightarrow> string \<Rightarrow> banner" where
  "bannerOf e message =
     (if list_all plainChar message then \<lparr> closeControl = True, nestedNotifications = 0 \<rparr>
      else parseBanner e (notificationMarkup message))"

text \<open>
  \<^verbatim>\<open>showNotification(message, type)\<close>: every element of class \<^verbatim>\<open>experience-notification\<close> is
  removed, the new element is appended and the slide-in timeout is set. Then the close
  control is looked up: without one, \<^verbatim>\<open>closeButton.addEventListener\<close> throws a TypeError,
  and neither the listener nor the auto-hide timeout is set. The second component is the
  error thrown, if any. The close control's listener is the event \<open>ClickClose\<close> below.
\<close>

definition showNotification :: "env \<Rightarrow> string \<Rightarrow> string \<Rightarrow> page \<Rightarrow> page \<times> error option" where
  "showNotification e message ntype p =
     (let existingNotifications = notifications p;
          remaining = filter (\<lambda>n. n \<notin> set existingNotifications) (notifications p);
          built = bannerOf e message;
          notification = \<lparr> nid = freshNid p,
                           className = ''experience-notification experience-notification--'' @ ntype,
                           innerHTML = notificationMarkup message,
                           backgroundColor =
                             (if ntype = ''success'' then ''#28a745''
                              else if ntype = ''error'' then ''#dc3545'' else ''#007bff''),
                           transform = ''translateX(100%)'',
                           nested = nestedNotifications built,
                           closable = closeControl built \<rparr>;
          p1 = p\<lparr> notifications := remaining @ [notification],
                  nextNid := Suc (freshNid p),
                  timers := timers p @ [(now p + 100, SlideIn (nid notification))] \<rparr>
      in if closeControl built
         then (p1\<lparr> timers := timers p1 @ [(now p + 5000, AutoHide (nid notification))] \<rparr>, None)
         else (p1, Some TypeError))"


definition setTransform :: "nat \<Rightarrow> string \<Rightarrow> notification list \<Rightarrow> notification list" where
  "setTransform k t ns = map (\<lambda>n. if nid n = k then n\<lparr>transform := t\<rparr> else n) ns"

definition hideNotification :: "nat \<Rightarrow> page \<Rightarrow> page" where
  "hideNotification k p =
     p\<lparr> notifications := setTransform k ''translateX(100%)'' (notifications p),
        timers := timers p @ [(now p + 300, RemoveNotification k)] \<rparr>"

section \<open>Submission and timeouts\<close>

definition hide :: "widget \<Rightarrow> page \<Rightarrow> page" where
  "hide w p =
     (case w of
        Modal i \<Rightarrow>
          if i < length (modalElements p)
          then p\<lparr> modalElements := (modalElements p)[i := (modalElements p ! i)\<lparr>shown := False\<rparr>] \<rparr>
          else p
      | Dropdown i \<Rightarrow> p)"

text \<open>\<^verbatim>\<open>form.reset()\<close> restores the default value of every field.\<close>

definition reset :: "field list \<Rightarrow> field list" where
  "reset fs = map (\<lambda>f. f\<lparr>fvalue := defaultValue f\<rparr>) fs"

definition submitBookingForm :: "(string \<rightharpoonup> string) \<Rightarrow> page \<Rightarrow> page" where
  "submitBookingForm formData p =
     (let originalText = textContent (submitBtn p) in
      p\<lparr> submitBtn := (submitBtn p)\<lparr>textContent := ''SUBMITTING...'', disabled := True\<rparr>,
         timers := timers p @ [(now p + 2000, BookingDone originalText)] \<rparr>)"

text \<open>
  \<^verbatim>\<open>handleBookingSubmission\<close>. The first component is the mapping passed to
  \<^verbatim>\<open>submitBookingForm\<close>, \<open>None\<close> when nothing is collected.
\<close>

definition handleBookingSubmission :: "env \<Rightarrow> page \<Rightarrow> (string \<rightharpoonup> string) option \<times> page" where
  "handleBookingSubmission e p =
     (case validateBookingForm e p of
        (ok, p1) \<Rightarrow>
          if ok then
            (let formData = collectFormData (bookingFields p1)
             in (Some formData, submitBookingForm formData p1))
          else (None, p1))"

text \<open>
  \<^verbatim>\<open>handleNewsletterSubmission\<close>, with the error it throws, if any: a form without an email
  field or without a submit button makes it throw a TypeError.
\<close>

definition handleNewsletterSubmission :: "env \<Rightarrow> page \<Rightarrow> page \<times> error option" where
  "handleNewsletterSubmission e p =
     (case find (\<lambda>f. tag f = InputEl \<and> ftype f = ''email'') (newsletterFields p) of
        None \<Rightarrow> (p, Some TypeError)
      | Some emailInput \<Rightarrow>
          (let email = trim (fvalue emailInput) in
           if email = [] then showNotification e ''Please enter your email address'' ''error'' p
           else if \<not> rx_test emailRegex email
           then showNotification e ''Please enter a valid email address'' ''error'' p
           else
             (case newsletterBtn p of
                None \<Rightarrow> (p, Some TypeError)
              | Some submitButton \<Rightarrow>
                  (p\<lparr> newsletterBtn :=
                        Some (submitButton\<lparr>textContent := ''Subscribing...'', disabled := True\<rparr>),
                      timers := timers p @ [(now p + 1500, NewsletterDone (textContent submitButton))] \<rparr>,
                   None))))"

text \<open>
  The bodies of the timeout callbacks. An error thrown by \<^verbatim>\<open>showNotification\<close> ends the
  callback there.
\<close>

fun runTask :: "env \<Rightarrow> task \<Rightarrow> page \<Rightarrow> page" where
  "runTask e (BookingDone originalText) p =
     (let p1 = p\<lparr> submitBtn := (submitBtn p)\<lparr>textContent := originalText, disabled := False\<rparr> \<rparr> in
      case showNotification e ''Booking request submitted successfully!'' ''success'' p1 of
        (p2, Some _) \<Rightarrow> p2
      | (p2, None) \<Rightarrow>
          (let p3 = (case modals p2 ''bookingModal'' of
                       Some bookingModal \<Rightarrow> hide bookingModal p2 | None \<Rightarrow> p2)
           in if bookingFormPresent p3 then p3\<lparr> bookingFields := reset (bookingFields p3) \<rparr> else p3))"
| "runTask e (NewsletterDone originalText) p =
     (let p1 = p\<lparr> newsletterBtn :=
                   map_option (\<lambda>b. b\<lparr>textContent := originalText, disabled := False\<rparr>) (newsletterBtn p) \<rparr> in
      case showNotification e ''Thank you for subscribing to our newsletter!'' ''success'' p1 of
        (p2, Some _) \<Rightarrow> p2
      | (p2, None) \<Rightarrow> p2\<lparr> newsletterFields := reset (newsletterFields p2) \<rparr>)"
| "runTask e (SlideIn k) p = p\<lparr> notifications := setTransform k ''translateX(0)'' (notifications p) \<rparr>"
| "runTask e (AutoHide k) p =
     (if k \<in> nid ` set (notifications p) then hideNotification k p else p)"
| "runTask e (RemoveNotification k) p =
     p\<lparr> notifications := filter (\<lambda>n. nid n \<noteq> k) (notifications p) \<rparr>"

text \<open>
  The event loop runs the pending timeout with the least due time, the earliest set first
  among equals, and the clock then reads at least that time.
\<close>

definition minDue :: "(nat \<times> task) list \<Rightarrow> nat" where
  "minDue ts = foldr (\<lambda>(d, _) m. min d m) (butlast ts) (fst (last ts))"

definition nextTimer :: "(nat \<times> task) list \<Rightarrow> (nat \<times> task) option" where
  "nextTimer ts = (if ts = [] then None else find (\<lambda>(d, _). d = minDue ts) ts)"

definition fire :: "env \<Rightarrow> nat \<times> task \<Rightarrow> page \<Rightarrow> page" where
  "fire e t p = runTask e (snd t) (p\<lparr> now := max (now p) (fst t), timers := remove1 t (timers p) \<rparr>)"

text \<open>A bound on the timeouts a callback can set, directly or through those it sets.\<close>

fun weight :: "task \<Rightarrow> nat" where
  "weight (BookingDone _) = 5"
| "weight (NewsletterDone _) = 5"
| "weight (SlideIn _) = 1"
| "weight (AutoHide _) = 2"
| "weight (RemoveNotification _) = 1"

definition pendingWeight :: "page \<Rightarrow> nat" where
  "pendingWeight p = sum_list (map (\<lambda>t. weight (snd t)) (timers p))"

text \<open>Time passes until the clock reads \<open>t\<close>: every timeout due by then runs, in order.\<close>

function advanceTo :: "env \<Rightarrow> nat \<Rightarrow> page \<Rightarrow> page" where
  "advanceTo e t p =
     (case nextTimer (timers p) of
        None \<Rightarrow> p\<lparr> now := max (now p) t \<rparr>
      | Some x \<Rightarrow> if fst x \<le> t then advanceTo e t (fire e x p) else p\<lparr> now := max (now p) t \<rparr>)"
  by pat_completeness auto
termination
proof (relation "measure (\<lambda>(e, t, p). pendingWeight p)")
  show "wf (measure (\<lambda>(e, t, p). pendingWeight p))" by simp
next
  fix e :: env and t :: nat and p :: page and x :: "nat \<times> task"
  assume nt: "nextTimer (timers p) = Some x"
  have nth_mem_eq: "\<And>i y. i < length (timers p) \<Longrightarrow> timers p ! i = y \<Longrightarrow> y \<in> set (timers p)"
    using nth_mem by blast
  have mem: "x \<in> set (timers p)"
    using nt by (auto simp: nextTimer_def find_Some_iff split: if_splits intro: nth_mem_eq)
  define q where "q = p\<lparr> now := max (now p) (fst x), timers := remove1 x (timers p) \<rparr>"
  have w: "pendingWeight p = weight (snd x) + pendingWeight q"
    using sum_list_map_remove1 [OF mem, of "\<lambda>t. weight (snd t)"]
    by (simp add: pendingWeight_def q_def)
  have "pendingWeight (runTask e (snd x) q) < weight (snd x) + pendingWeight q"
    by (cases "snd x")
       (simp_all add: pendingWeight_def showNotification_def hideNotification_def hide_def Let_def
             split: option.splits widget.splits prod.splits)
  then have "pendingWeight (fire e x p) < pendingWeight p"
    using w by (simp add: fire_def q_def)
  then show "((e, t, fire e x p), (e, t, p)) \<in> measure (\<lambda>(e, t, p). pendingWeight p)" by simp
qed

declare advanceTo.simps [simp del]

section \<open>Initialization\<close>

definition initializeModals :: "page \<Rightarrow> page" where
  "initializeModals p =
     p\<lparr> modals := foldl (\<lambda>m i. m(modalId (modalElements p ! i) \<mapsto> Modal i))
                         (modals p) [0..<length (modalElements p)] \<rparr>"

definition dropdownKey :: "dropdownEl \<Rightarrow> string" where
  "dropdownKey d = (if dropdownId d \<noteq> [] then dropdownId d else dropdownClass d)"

definition initializeDropdowns :: "page \<Rightarrow> page" where
  "initializeDropdowns p =
     p\<lparr> dropdowns := foldl (\<lambda>m i. m(dropdownKey (dropdownElements p ! i) \<mapsto> Dropdown i))
                            (dropdowns p) [0..<length (dropdownElements p)] \<rparr>"

text \<open>The constructor and \<^verbatim>\<open>setupComponents\<close>, on the document as it is at page-ready.\<close>

definition setupComponents :: "page \<Rightarrow> page" where
  "setupComponents p = initializeDropdowns (initializeModals p)"

definition construct :: "page \<Rightarrow> page" where
  "construct p = setupComponents (p\<lparr> modals := Map.empty, dropdowns := Map.empty \<rparr>)"

section \<open>Events\<close>

datatype event =
    Blur nat                    \<comment> \<open>a booking field loses focus\<close>
  | Input nat string            \<comment> \<open>a booking field is edited\<close>
  | EditNewsletter nat string   \<comment> \<open>a newsletter field is edited\<close>
  | SubmitBooking               \<comment> \<open>click on the submit control, or the form's submit event\<close>
  | SubmitNewsletter
  | Notify string string        \<comment> \<open>a call of \<^verbatim>\<open>showNotification\<close>\<close>
  | ClickClose nat              \<comment> \<open>click on the close control of a notification\<close>
  | Wait nat                    \<comment> \<open>time passes\<close>
  | AddModal modalEl            \<comment> \<open>a modal element is added to the page\<close>
  | AddDropdown dropdownEl      \<comment> \<open>a dropdown toggle is added to the page\<close>

fun step :: "env \<Rightarrow> event \<Rightarrow> page \<Rightarrow> page" where
  "step e (Blur i) p =
     (if i < length (bookingFields p) then snd (validateField e i p) else p)"
| "step e (Input i v) p =
     (if i < length (bookingFields p)
      then clearFieldError i (p\<lparr> bookingFields := (bookingFields p)[i := (bookingFields p ! i)\<lparr>fvalue := v\<rparr>] \<rparr>)
      else p)"
| "step e (EditNewsletter i v) p =
     (if i < length (newsletterFields p)
      then p\<lparr> newsletterFields := (newsletterFields p)[i := (newsletterFields p ! i)\<lparr>fvalue := v\<rparr>] \<rparr>
      else p)"
| "step e SubmitBooking p = snd (handleBookingSubmission e p)"
| "step e SubmitNewsletter p = fst (handleNewsletterSubmission e p)"
| "step e (Notify message ntype) p = fst (showNotification e message ntype p)"
| "step e (ClickClose k) p =
     (if list_ex (\<lambda>n. nid n = k \<and> closable n) (notifications p) then hideNotification k p else p)"
| "step e (Wait d) p = advanceTo e (now p + d) p"
| "step e (AddModal m) p = p\<lparr> modalElements := modalElements p @ [m] \<rparr>"
| "step e (AddDropdown d) p = p\<lparr> dropdownElements := dropdownElements p @ [d] \<rparr>"

definition run :: "env \<Rightarrow> event list \<Rightarrow> page \<Rightarrow> page" where
  "run e evs p = foldl (\<lambda>q ev. step e ev q) p evs"

section \<open>Parallax\<close>

text \<open>
  The state \<^verbatim>\<open>bindParallaxScroll\<close> works on: its variable \<^verbatim>\<open>ticking\<close>, the number of
  \<^verbatim>\<open>updateParallax\<close> callbacks waiting for the next animation frame, the window's scroll
  offset, and the \<^verbatim>\<open>translate3d(x, y, z)\<close> transform of each image, in pixels.
\<close>

datatype translate3d = Translate3d rat rat rat

record parallax =
  ticking :: bool
  pendingFrames :: nat
  pageYOffset :: rat
  imageTransforms :: "translate3d option list"

definition updateParallax :: "parallax \<Rightarrow> parallax" where
  "updateParallax s =
     (let scrolled = pageYOffset s in
      s\<lparr> imageTransforms := map (\<lambda>_. Some (Translate3d 0 (scrolled * (- (1 / 2))) 0)) (imageTransforms s),
         ticking := False \<rparr>)"

definition requestParallaxUpdate :: "parallax \<Rightarrow> parallax" where
  "requestParallaxUpdate s =
     (if \<not> ticking s then s\<lparr> pendingFrames := Suc (pendingFrames s), ticking := True \<rparr> else s)"

definition bindParallaxScroll :: "rat \<Rightarrow> translate3d option list \<Rightarrow> parallax" where
  "bindParallaxScroll y elements =
     \<lparr> ticking = False, pendingFrames = 0, pageYOffset = y, imageTransforms = elements \<rparr>"

definition setupParallaxEffect :: "bool \<Rightarrow> rat \<Rightarrow> translate3d option list \<Rightarrow> parallax option" where
  "setupParallaxEffect prefersReducedMotion y parallaxElements =
     (if length parallaxElements > 0 \<and> \<not> prefersReducedMotion
      then Some (bindParallaxScroll y parallaxElements) else None)"

primrec runCallbacks :: "nat \<Rightarrow> parallax \<Rightarrow> parallax" where
  "runCallbacks 0 s = s"
| "runCallbacks (Suc n) s = runCallbacks n (updateParallax s)"

datatype scrollEvent = Scroll rat | Frame

fun scrollStep :: "scrollEvent \<Rightarrow> parallax \<Rightarrow> parallax" where
  "scrollStep (Scroll y) s = requestParallaxUpdate (s\<lparr> pageYOffset := y \<rparr>)"
| "scrollStep Frame s = runCallbacks (pendingFrames s) (s\<lparr> pendingFrames := 0 \<rparr>)"

definition scrollRun :: "scrollEvent list \<Rightarrow> parallax \<Rightarrow> parallax" where
  "scrollRun evs s = foldl (\<lambda>q ev. scrollStep ev q) s evs"

text \<open>The flag is set exactly when one callback is pending, and never more than one is.\<close>

definition parallaxInv :: "parallax \<Rightarrow> bool" where
  "parallaxInv s = (pendingFrames s \<le> 1 \<and> (ticking s = (pendingFrames s = 1)))"

text \<open>
  The phone shape in words: an optional leading \<^verbatim>\<open>+\<close>, then 1 to 16 digits, the first
  of them not zero.
\<close>

definition digitsNoLeadingZero :: "string \<Rightarrow> bool" where
  "digitsNoLeadingZero ds =
     (1 \<le> length ds \<and> length ds \<le> 16 \<and> list_all isDigit ds \<and> hd ds \<noteq> CHR ''0'')"

definition phoneShape :: "string \<Rightarrow> bool" where
  "phoneShape s =
     (case s of
        [] \<Rightarrow> False
      | c # ds \<Rightarrow> if c = CHR ''+'' then digitsNoLeadingZero ds else digitsNoLeadingZero s)"

text \<open>Removing spaces, hyphens and parentheses; and the same with every white-space character.\<close>

definition removeSpacesHyphensParens :: "string \<Rightarrow> string" where
  "removeSpacesHyphensParens s = filter (\<lambda>c. c \<notin> set '' -()'') s"

definition removeWhitespaceHyphensParens :: "string \<Rightarrow> string" where
  "removeWhitespaceHyphensParens s = filter (\<lambda>c. \<not> isWhiteSpace c \<and> c \<notin> set ''-()'') s"

text \<open>Example elements and pages.\<close>

definition inputField :: "string \<Rightarrow> string \<Rightarrow> bool \<Rightarrow> string \<Rightarrow> nat \<Rightarrow> field" where
  "inputField t n r v par =
     \<lparr> tag = InputEl, ftype = t, fname = n, elemId = n, required = r, fvalue = v,
       defaultValue = [], parentNode = par, isInvalid = False \<rparr>"

definition formPage :: "nat \<Rightarrow> field list \<Rightarrow> page" where
  "formPage clock fs =
     \<lparr> now = clock, timers = [], nextNid = 0, notifications = [],
       bookingFields = fs, bookingFormPresent = True,
       feedbackDivs = [], ancestors = (\<lambda>_. []), endTag = (\<lambda>n. n),
       submitBtn = \<lparr> textContent = ''SUBMIT'', disabled = False \<rparr>,
       newsletterFields = [], newsletterBtn = None,
       modalElements = [], dropdownElements = [],
       modals = Map.empty, dropdowns = Map.empty \<rparr>"

text \<open>
  Validation changes only the error marks of the fields and the feedback elements:
  \<open>unmarked\<close> forgets the marks, and \<open>sameDocument p' p\<close> says that \<open>p'\<close> is \<open>p\<close> up to
  marks and feedback.
\<close>

definition unmarked :: "field list \<Rightarrow> field list" where
  "unmarked fs = map (\<lambda>f. f\<lparr>isInvalid := False\<rparr>) fs"

definition sameDocument :: "page \<Rightarrow> page \<Rightarrow> bool" where
  "sameDocument p' p =
     (p'\<lparr> bookingFields := bookingFields p, feedbackDivs := feedbackDivs p \<rparr> = p \<and>
      unmarked (bookingFields p') = unmarked (bookingFields p))"

definition rangeMessage :: string where
  "rangeMessage = ''Check-out date must be after check-in date''"

text \<open>
  Two required date fields sharing a parent, both in the past on 2026-11-03, the check-out
  before the check-in.
\<close>

definition pastPairPage :: page where
  "pastPairPage = formPage 1793700900000
     [inputField ''datetime-local'' ''checkin'' True ''2020-01-02T10:00'' 0,
      inputField ''datetime-local'' ''checkout'' True ''2020-01-01T10:00'' 0]"

lemmas eval_defs =
  formPage_def inputField_def checkField_def validateField_def validateBookingForm_def
  requiredFields_def rangeViolation_def checkinInput_def checkoutInput_def isDatetimeInput_def
  firstOfType_def lastOfType_def sameTypeSibling_def showFieldError_def clearFieldError_def
  feedback_def inside_def
  trim_def isWhiteSpace_def isDigit_def utcEnv_def utcParse_def daysFromCivil_def Let_def rangeMessage_def

text \<open>
  A form with one date field: after a text input in the same parent, and alone in its parent.
\<close>

definition siblingPage :: page where
  "siblingPage = formPage 1793700900000
     [inputField ''text'' ''guest'' True ''Ann'' 0,
      inputField ''datetime-local'' ''checkin'' True ''2027-01-01T10:00'' 0]"

definition singleDatePage :: page where
  "singleDatePage = formPage 1793700900000
     [inputField ''text'' ''guest'' True ''Ann'' 0,
      inputField ''datetime-local'' ''checkin'' True ''2027-01-01T10:00'' 1]"

text \<open>A page with the given modal elements and dropdown toggles, and two toggles without ids.\<close>

definition widgetPage :: "modalEl list \<Rightarrow> dropdownEl list \<Rightarrow> page" where
  "widgetPage ms ds = (formPage 0 [])\<lparr> modalElements := ms, dropdownElements := ds \<rparr>"

definition twoToggles :: "dropdownEl list" where
  "twoToggles = [\<lparr> dropdownId = [], dropdownClass = ''nav-link dropdown-toggle'' \<rparr>,
                 \<lparr> dropdownId = [], dropdownClass = ''nav-link dropdown-toggle'' \<rparr>]"

text \<open>
  An invalid email field and a valid text field, both required: in one parent; and the
  email field in a wrapper of its own inside the parent of the text field.
\<close>

definition sharedParentPage :: page where
  "sharedParentPage = formPage 1793700900000
     [inputField ''email'' ''email'' True ''user@'' 0,
      inputField ''text'' ''guest'' True ''Ann'' 0]"

definition nestedParentPage :: page where
  "nestedParentPage = (formPage 1793700900000
     [inputField ''email'' ''email'' True ''user@'' 1,
      inputField ''text'' ''guest'' True ''Ann'' 0])
     \<lparr> ancestors := (\<lambda>n. if n = 1 then [0] else []),
       endTag := (\<lambda>n. if n = 1 then 1 else 2) \<rparr>"









section \<open>Properties of the regular expressions\<close>

lemma in_conc: "zs \<in> conc A B \<longleftrightarrow> (\<exists>us vs. zs = us @ vs \<and> us \<in> A \<and> vs \<in> B)"
  unfolding conc_def by blast

lemma nil_in_conc: "[] \<in> conc A B \<longleftrightarrow> [] \<in> A \<and> [] \<in> B"
  unfolding conc_def by auto

lemma cons_in_conc:
  "c # xs \<in> conc A B \<longleftrightarrow>
     ([] \<in> A \<and> c # xs \<in> B) \<or> (\<exists>us vs. xs = us @ vs \<and> c # us \<in> A \<and> vs \<in> B)"
  unfolding conc_def by (auto simp: Cons_eq_append_conv)

lemma nullable_lang: "nullable r \<longleftrightarrow> [] \<in> lang r"
  by (induction r) (auto simp: nil_in_conc intro: star.star_nil)

lemma cons_in_star:
  "c # xs \<in> star A \<longleftrightarrow> (\<exists>us vs. xs = us @ vs \<and> c # us \<in> A \<and> vs \<in> star A)"
proof
  assume "c # xs \<in> star A"
  then show "\<exists>us vs. xs = us @ vs \<and> c # us \<in> A \<and> vs \<in> star A"
  proof (induction "c # xs" rule: star.induct)
    case (star_app ys zs)
    then show ?case by (cases ys) auto
  qed
next
  assume "\<exists>us vs. xs = us @ vs \<and> c # us \<in> A \<and> vs \<in> star A"
  then obtain us vs where "xs = us @ vs" "c # us \<in> A" "vs \<in> star A" by blast
  then show "c # xs \<in> star A" using star.star_app [of "c # us" A vs] by simp
qed

lemma lang_deriv: "xs \<in> lang (deriv c r) \<longleftrightarrow> c # xs \<in> lang r"
proof (induction r arbitrary: xs)
  case (RSeq r s)
  have "xs \<in> lang (deriv c (RSeq r s)) \<longleftrightarrow>
          ([] \<in> lang r \<and> c # xs \<in> lang s) \<or>
          (\<exists>us vs. xs = us @ vs \<and> c # us \<in> lang r \<and> vs \<in> lang s)"
    by (auto simp: nullable_lang in_conc RSeq)
  also have "\<dots> \<longleftrightarrow> c # xs \<in> lang (RSeq r s)"
    by (simp add: cons_in_conc)
  finally show ?case .
next
  case (RStar r)
  have "xs \<in> lang (deriv c (RStar r)) \<longleftrightarrow>
          (\<exists>us vs. xs = us @ vs \<and> c # us \<in> lang r \<and> vs \<in> star (lang r))"
    by (simp add: in_conc RStar)
  also have "\<dots> \<longleftrightarrow> c # xs \<in> lang (RStar r)"
    by (simp add: cons_in_star)
  finally show ?case .
qed auto

lemma rx_test_lang: "rx_test r s \<longleftrightarrow> s \<in> lang r"
  by (induction s arbitrary: r) (auto simp: nullable_lang lang_deriv)



lemma lang_RUpTo_cls:
  "s \<in> lang (RUpTo n (RCls k)) \<longleftrightarrow> length s \<le> n \<and> (\<forall>c \<in> set s. cclass_match k c)"
proof (induction n arbitrary: s)
  case 0 show ?case by auto
next
  case (Suc n) show ?case by (cases s) (auto simp: cons_in_conc Suc)
qed

section \<open>Parallax scrolling\<close>

lemma scrollRun_snoc: "scrollRun (evs @ [ev]) s = scrollStep ev (scrollRun evs s)"
  by (simp add: scrollRun_def)

lemma scrollStep_inv: "parallaxInv s \<Longrightarrow> parallaxInv (scrollStep ev s)"
proof (cases ev)
  case (Scroll y)
  assume "parallaxInv s"
  then show ?thesis using Scroll
    by (auto simp: parallaxInv_def requestParallaxUpdate_def)
next
  case Frame
  assume inv: "parallaxInv s"
  then consider "pendingFrames s = 0" | "pendingFrames s = Suc 0"
    by (auto simp: parallaxInv_def)
  then show ?thesis
  proof cases
    case 1
    then show ?thesis using inv Frame by (simp add: parallaxInv_def)
  next
    case 2
    then show ?thesis using Frame by (simp add: parallaxInv_def updateParallax_def)
  qed
qed

lemma scrollRun_inv: "parallaxInv s \<Longrightarrow> parallaxInv (scrollRun evs s)"
  by (induction evs rule: rev_induct) (simp_all add: scrollRun_snoc scrollStep_inv, simp add: scrollRun_def)

lemma scrollRun_length:
  "length (imageTransforms (scrollRun evs s)) = length (imageTransforms s)"
proof (induction evs rule: rev_induct)
  case Nil show ?case by (simp add: scrollRun_def)
next
  case (snoc ev evs)
  have n: "\<And>n q. length (imageTransforms (runCallbacks n q)) = length (imageTransforms q)"
  proof -
    fix n q show "length (imageTransforms (runCallbacks n q)) = length (imageTransforms q)"
      by (induction n arbitrary: q) (simp_all add: updateParallax_def)
  qed
  show ?case using snoc
    by (cases ev) (simp_all add: scrollRun_snoc requestParallaxUpdate_def n)
qed

text \<open>
  C5. From the state in which the scroll handler is bound, after any sequence of scroll
  events and animation frames: at most one update is pending, and the flag is set exactly
  when one is; a scroll event schedules an update only when the flag is clear and leaves
  the flag set; an animation frame leaves no update pending and the flag clear; and when
  an update was pending, the frame gives every parallax image the transform
  \<^verbatim>\<open>translate3d(0, -0.5 * S, 0)\<close> for the scroll offset \<open>S\<close> read when the update runs.
\<close>

theorem parallax_transform_and_single_pending:
  "(let s = scrollRun evs (bindParallaxScroll y0 els) in
      pendingFrames s \<le> 1 \<and> ticking s = (pendingFrames s = 1) \<and>
      pendingFrames (scrollStep (Scroll y) s) = (if ticking s then pendingFrames s else Suc (pendingFrames s)) \<and>
      ticking (scrollStep (Scroll y) s) \<and>
      pendingFrames (scrollStep Frame s) = 0 \<and> \<not> ticking (scrollStep Frame s) \<and>
      (ticking s \<longrightarrow>
         imageTransforms (scrollStep Frame s) =
           replicate (length els) (Some (Translate3d 0 (- (1 / 2) * pageYOffset s) 0))))"
proof -
  define s where "s = scrollRun evs (bindParallaxScroll y0 els)"
  have "parallaxInv (bindParallaxScroll y0 els)"
    by (simp add: parallaxInv_def bindParallaxScroll_def)
  then have inv: "parallaxInv s" unfolding s_def by (rule scrollRun_inv)
  have len: "length (imageTransforms s) = length els"
    unfolding s_def by (simp add: scrollRun_length bindParallaxScroll_def)
  have a: "pendingFrames s \<le> 1" "ticking s = (pendingFrames s = 1)"
    using inv by (simp_all add: parallaxInv_def)
  have b: "pendingFrames (scrollStep (Scroll y) s) = (if ticking s then pendingFrames s else Suc (pendingFrames s))"
      "ticking (scrollStep (Scroll y) s)"
    by (simp_all add: requestParallaxUpdate_def)
  have c: "parallaxInv (scrollStep Frame s)" using inv by (rule scrollStep_inv)
  have d: "pendingFrames (scrollStep Frame s) = 0"
  proof -
    have "\<And>n q. pendingFrames (runCallbacks n q) = pendingFrames q"
    proof -
      fix n q show "pendingFrames (runCallbacks n q) = pendingFrames q"
        by (induction n arbitrary: q) (simp_all add: updateParallax_def)
    qed
    then show ?thesis by simp
  qed
  have e: "\<not> ticking (scrollStep Frame s)" using c d by (simp add: parallaxInv_def)
  have f: "ticking s \<longrightarrow> imageTransforms (scrollStep Frame s) =
           replicate (length els) (Some (Translate3d 0 (- (1 / 2) * pageYOffset s) 0))"
  proof
    assume "ticking s"
    then have "pendingFrames s = Suc 0" using a by simp
    then show "imageTransforms (scrollStep Frame s) =
           replicate (length els) (Some (Translate3d 0 (- (1 / 2) * pageYOffset s) 0))"
      using len by (simp add: updateParallax_def map_replicate_const)
  qed
  show ?thesis using a b d e f unfolding s_def Let_def by blast
qed

theorem parallax_witness:
  "(let s = scrollRun [Scroll 100, Scroll 250] (bindParallaxScroll 0 [None, None]) in
      ticking s \<and> pendingFrames s = 1 \<and>
      imageTransforms (scrollStep Frame s) = [Some (Translate3d 0 (-125) 0), Some (Translate3d 0 (-125) 0)])"
  using parallax_transform_and_single_pending [of "[Scroll 100, Scroll 250]" 0 "[None, None]" 0]
  by (simp add: scrollRun_def bindParallaxScroll_def requestParallaxUpdate_def updateParallax_def Let_def)

section \<open>Phone numbers\<close>

lemma zero_char: "(of_char c = (48::nat)) = (c = CHR ''0'')"
proof -
  have "of_char (CHR ''0'') = (48::nat)" by simp
  then show ?thesis by (metis of_char_eq_iff)
qed

lemma lang_digits:
  "s \<in> conc (lang (RCls (OneOf [Range CHR ''1'' CHR ''9'']))) (lang (RUpTo 15 (RCls (OneOf [ClsDigit]))))
     \<longleftrightarrow> digitsNoLeadingZero s"
proof (cases s)
  case Nil
  then show ?thesis by (simp add: nil_in_conc digitsNoLeadingZero_def)
next
  case (Cons c cs)
  have "c # cs \<in> conc (lang (RCls (OneOf [Range CHR ''1'' CHR ''9''])))
                       (lang (RUpTo 15 (RCls (OneOf [ClsDigit]))))
        \<longleftrightarrow> (49 \<le> (of_char c :: nat) \<and> (of_char c :: nat) \<le> 57) \<and> length cs \<le> 15 \<and> (\<forall>x\<in>set cs. isDigit x)"
    by (simp add: cons_in_conc lang_RUpTo_cls)
  also have "\<dots> \<longleftrightarrow> digitsNoLeadingZero (c # cs)"
    using zero_char [of c]
    by (auto simp: digitsNoLeadingZero_def isDigit_def list_all_iff)
  finally show ?thesis using Cons by simp
qed

lemma opt_conc: "s \<in> conc ({[c]} \<union> {[]}) B \<longleftrightarrow> s \<in> B \<or> (\<exists>ds. s = c # ds \<and> ds \<in> B)"
proof -
  have "c # ds = [c] @ ds" for ds by simp
  then show ?thesis unfolding in_conc by (auto simp: Cons_eq_append_conv) blast+
qed

lemma phoneRegex_shape: "rx_test phoneRegex s \<longleftrightarrow> phoneShape s"
proof -
  have nd: "\<not> digitsNoLeadingZero (CHR ''+'' # ds)" for ds
    by (simp add: digitsNoLeadingZero_def isDigit_def)
  have ne: "\<not> digitsNoLeadingZero []"
    by (simp add: digitsNoLeadingZero_def)
  have "lang phoneRegex =
          conc ({[CHR ''+'']} \<union> {[]})
               (conc (lang (RCls (OneOf [Range CHR ''1'' CHR ''9'']))) (lang (RUpTo 15 (RCls (OneOf [ClsDigit])))))"
    by (simp add: phoneRegex_def ROpt_def)
  then have "rx_test phoneRegex s \<longleftrightarrow> digitsNoLeadingZero s \<or> (\<exists>ds. s = CHR ''+'' # ds \<and> digitsNoLeadingZero ds)"
    unfolding rx_test_lang by (simp only: opt_conc lang_digits)
  also have "\<dots> \<longleftrightarrow> phoneShape s"
    using nd ne by (cases s) (auto simp: phoneShape_def)
  finally show ?thesis .
qed

lemma strip_eq: "replace_all_empty phoneStrip s = removeWhitespaceHyphensParens s"
  by (simp add: replace_all_empty_def phoneStrip_def removeWhitespaceHyphensParens_def)

text \<open>
  C6, as stated, fails. A phone field holding two spaces has a non-empty value that, with
  its spaces removed, is not of the phone shape, yet it validates: the value is trimmed
  before it is tested for emptiness. A phone field holding \<^verbatim>\<open>1<TAB>2\<close> validates too: the
  pattern removes every white-space character, not only spaces.
\<close>

theorem phone_spaces_counterexample:
  "(let blank = inputField ''tel'' ''phone'' False ''  '' 0;
        tabbed = inputField ''tel'' ''phone'' False [CHR ''1'', CHR 0x09, CHR ''2''] 0
    in fvalue blank \<noteq> [] \<and> \<not> phoneShape (removeSpacesHyphensParens (fvalue blank)) \<and>
       checkField utcEnv 0 blank = (True, []) \<and>
       fvalue tabbed \<noteq> [] \<and> \<not> phoneShape (removeSpacesHyphensParens (fvalue tabbed)) \<and>
       checkField utcEnv 0 tabbed = (True, []))"
  by (simp add: inputField_def checkField_def trim_def isWhiteSpace_def removeSpacesHyphensParens_def
        phoneShape_def digitsNoLeadingZero_def isDigit_def replace_all_empty_def phoneStrip_def
        phoneRegex_def ROpt_def eval_nat_numeral Let_def)

text \<open>
  C6, amended. For a phone field whose trimmed value is not empty, validation fails with
  the phone-format message if and only if the trimmed value, after removing white-space
  characters, hyphens and parentheses, is not an optional leading \<^verbatim>\<open>+\<close> followed by 1 to
  16 digits whose first is not zero; a phone field whose trimmed value is empty passes
  unless it is required.
\<close>

theorem phone_validation:
  "ftype (bookingFields p ! i) = ''tel'' \<Longrightarrow>
   validateField e i p =
     (let field = bookingFields p ! i; v = trim (fvalue field) in
      if v = [] then
        (if required field then (False, showFieldError i ''This field is required'' p)
         else (True, clearFieldError i p))
      else if phoneShape (removeWhitespaceHyphensParens v) then (True, clearFieldError i p)
      else (False, showFieldError i ''Please enter a valid phone number'' p))"
  by (simp add: validateField_def checkField_def Let_def phoneRegex_shape strip_eq)

text \<open>
  \<^verbatim>\<open>+14155551234\<close> passes, with or without formatting characters; \<^verbatim>\<open>abc\<close> fails; an empty
  phone field that is not required passes.
\<close>

theorem phone_validation_witness:
  "fst (validateField utcEnv 0 (formPage 0 [inputField ''tel'' ''phone'' True ''+14155551234'' 0])) \<and>
   fst (validateField utcEnv 0 (formPage 0 [inputField ''tel'' ''phone'' True '' (415) 555-1234 '' 0])) \<and>
   \<not> fst (validateField utcEnv 0 (formPage 0 [inputField ''tel'' ''phone'' True ''abc'' 0])) \<and>
   feedback (snd (validateField utcEnv 0 (formPage 0 [inputField ''tel'' ''phone'' True ''abc'' 0]))) 0
     = [''Please enter a valid phone number''] \<and>
   fst (validateField utcEnv 0 (formPage 0 [inputField ''tel'' ''phone'' False '''' 0]))"
  using phone_validation [of "formPage 0 [inputField ''tel'' ''phone'' True ''+14155551234'' 0]" 0 utcEnv]
        phone_validation [of "formPage 0 [inputField ''tel'' ''phone'' True '' (415) 555-1234 '' 0]" 0 utcEnv]
        phone_validation [of "formPage 0 [inputField ''tel'' ''phone'' True ''abc'' 0]" 0 utcEnv]
        phone_validation [of "formPage 0 [inputField ''tel'' ''phone'' False '''' 0]" 0 utcEnv]
  by (simp add: formPage_def inputField_def trim_def isWhiteSpace_def removeWhitespaceHyphensParens_def
        phoneShape_def digitsNoLeadingZero_def isDigit_def Let_def showFieldError_def clearFieldError_def
        feedback_def inside_def)

section \<open>Validation of the booking form\<close>

lemma unmarked_update:
  "unmarked (fs[i := (fs ! i)\<lparr>isInvalid := b\<rparr>]) = unmarked fs"
proof (cases "i < length fs")
  case True
  then show ?thesis
    by (simp add: unmarked_def map_update list_eq_iff_nth_eq nth_list_update)
next
  case False
  then have "fs[i := (fs ! i)\<lparr>isInvalid := b\<rparr>] = fs" by (simp add: list_update_beyond)
  then show ?thesis by simp
qed

lemma sameDocument_refl: "sameDocument p p"
  by (simp add: sameDocument_def)

lemma sameDocument_trans: "sameDocument p'' p' \<Longrightarrow> sameDocument p' p \<Longrightarrow> sameDocument p'' p"
  unfolding sameDocument_def
  by (metis (no_types, lifting) page.surjective page.update_convs(5) page.update_convs(7))

lemma clearFieldError_same: "sameDocument (clearFieldError i p) p"
  by (simp add: sameDocument_def clearFieldError_def Let_def unmarked_update)

lemma showFieldError_same: "sameDocument (showFieldError i m p) p"
proof -
  let ?q = "clearFieldError i p"
  have "sameDocument (showFieldError i m p) ?q"
    by (simp add: sameDocument_def showFieldError_def Let_def unmarked_update)
  then show ?thesis using clearFieldError_same sameDocument_trans by blast
qed

lemma validateField_same: "sameDocument (snd (validateField e i p)) p"
  by (simp add: validateField_def showFieldError_same clearFieldError_same split: prod.splits)

lemma validateEach_same: "sameDocument q p \<Longrightarrow> sameDocument (snd (validateEach e is (b, q))) p"
proof (induction "is" arbitrary: b q)
  case Nil
  then show ?case by simp
next
  case (Cons i "is")
  obtain ok q' where v: "validateField e i q = (ok, q')" by (cases "validateField e i q")
  then have "sameDocument q' q" using validateField_same [of e i q] by simp
  then have "sameDocument q' p" using Cons.prems sameDocument_trans by blast
  then show ?case using Cons.IH v by simp
qed

lemma length_unmarked: "length (unmarked fs) = length fs"
  by (simp add: unmarked_def)

lemma nth_unmarked: "i < length fs \<Longrightarrow> unmarked fs ! i = (fs ! i)\<lparr>isInvalid := False\<rparr>"
  by (simp add: unmarked_def)

lemma find_upt_less: "find P [0..<n] = Some i \<Longrightarrow> i < n"
  by (auto simp: find_Some_iff)

lemma checkinInput_less: "checkinInput fs = Some i \<Longrightarrow> i < length fs"
  unfolding checkinInput_def by (rule find_upt_less)

lemma checkoutInput_less: "checkoutInput fs = Some i \<Longrightarrow> i < length fs"
  unfolding checkoutInput_def by (rule find_upt_less)

lemma sameTypeSibling_unmarked:
  "i < length fs \<Longrightarrow> j < length fs \<Longrightarrow> sameTypeSibling (unmarked fs) i j = sameTypeSibling fs i j"
  by (simp add: sameTypeSibling_def nth_unmarked)

lemma firstOfType_unmarked: "i < length fs \<Longrightarrow> firstOfType (unmarked fs) i = firstOfType fs i"
  by (simp add: firstOfType_def list_all_iff sameTypeSibling_unmarked)

lemma lastOfType_unmarked: "i < length fs \<Longrightarrow> lastOfType (unmarked fs) i = lastOfType fs i"
  by (simp add: lastOfType_def list_all_iff sameTypeSibling_unmarked length_unmarked)

lemma checkinInput_unmarked: "checkinInput (unmarked fs) = checkinInput fs"
  unfolding checkinInput_def length_unmarked
  by (rule find_cong) (simp_all add: firstOfType_unmarked nth_unmarked isDatetimeInput_def)

lemma checkoutInput_unmarked: "checkoutInput (unmarked fs) = checkoutInput fs"
  unfolding checkoutInput_def length_unmarked
  by (rule find_cong) (simp_all add: lastOfType_unmarked nth_unmarked isDatetimeInput_def)

lemma rangeViolation_unmarked: "rangeViolation e (unmarked fs) = rangeViolation e fs"
  unfolding rangeViolation_def checkinInput_unmarked checkoutInput_unmarked
  by (auto split: option.splits dest!: checkinInput_less checkoutInput_less simp: nth_unmarked)

lemma requiredFields_unmarked: "requiredFields (unmarked fs) = requiredFields fs"
  unfolding requiredFields_def length_unmarked
  by (rule filter_cong) (simp_all add: nth_unmarked)


lemma same_rangeViolation:
  "unmarked fs' = unmarked fs \<Longrightarrow> rangeViolation e fs' = rangeViolation e fs"
  by (metis rangeViolation_unmarked)

lemma same_requiredFields:
  "unmarked fs' = unmarked fs \<Longrightarrow> requiredFields fs' = requiredFields fs"
  by (metis requiredFields_unmarked)


lemma same_length: "unmarked fs' = unmarked fs \<Longrightarrow> length fs' = length fs"
  by (metis length_unmarked)

lemma same_nth:
  "unmarked fs' = unmarked fs \<Longrightarrow> i < length fs \<Longrightarrow> (fs' ! i)\<lparr>isInvalid := False\<rparr> = (fs ! i)\<lparr>isInvalid := False\<rparr>"
  by (metis nth_unmarked same_length)

lemma removeFirst_filter: "filter P (removeFirst P xs) = drop 1 (filter P xs)"
  by (induction xs) auto

lemma insertAfterLast_filter:
  assumes "Q y" and "\<And>x. Q x \<Longrightarrow> P x"
  shows "filter Q (insertAfterLast P y xs) = filter Q xs @ [y]"
proof (induction xs)
  case Nil
  then show ?case using assms(1) by simp
next
  case (Cons x xs)
  show ?case
  proof (cases "list_ex P (x # xs)")
    case True
    then show ?thesis using Cons.IH by simp
  next
    case False
    then have "\<forall>z \<in> set (x # xs). \<not> Q z" using assms(2) by (auto simp: list_ex_iff)
    then have "filter Q (x # xs) = []" by (simp add: filter_empty_conv)
    then show ?thesis using False assms(1) by simp
  qed
qed

lemma inside_clearFieldError: "inside (clearFieldError i p) = inside p"
  by (simp add: inside_def clearFieldError_def Let_def fun_eq_iff)

lemma inside_showFieldError: "inside (showFieldError i m p) = inside p"
  by (simp add: inside_def showFieldError_def clearFieldError_def Let_def fun_eq_iff)

lemma showFieldError_effect:
  assumes "i < length (bookingFields q)"
  shows "isInvalid (bookingFields (showFieldError i m q) ! i)"
    and "feedback (showFieldError i m q) (parentNode (bookingFields q ! i)) =
           drop 1 (feedback q (parentNode (bookingFields q ! i))) @ [m]"
proof -
  let ?par = "parentNode (bookingFields q ! i)"
  let ?Q = "\<lambda>d. inside q (holder d) ?par"
  let ?P = "\<lambda>d. inside q (holder d) ?par \<or> place d < endTag q ?par"
  let ?y = "\<lparr> holder = ?par, place = endTag q ?par, divText = m \<rparr>"
  show "isInvalid (bookingFields (showFieldError i m q) ! i)"
    using assms by (simp add: showFieldError_def clearFieldError_def Let_def)
  have divs: "feedbackDivs (showFieldError i m q) =
      insertAfterLast ?P ?y (removeFirst ?Q (feedbackDivs q))"
    using assms by (simp add: showFieldError_def clearFieldError_def Let_def inside_def)
  have "?Q ?y" by (simp add: inside_def)
  then have "filter ?Q (insertAfterLast ?P ?y (removeFirst ?Q (feedbackDivs q))) =
      filter ?Q (removeFirst ?Q (feedbackDivs q)) @ [?y]"
    by (rule insertAfterLast_filter) simp
  then have "filter ?Q (feedbackDivs (showFieldError i m q)) = drop 1 (filter ?Q (feedbackDivs q)) @ [?y]"
    using divs by (simp add: removeFirst_filter)
  then show "feedback (showFieldError i m q) ?par = drop 1 (feedback q ?par) @ [m]"
    by (simp add: feedback_def inside_showFieldError drop_map)
qed

lemma validateEach_fields:
  "unmarked (bookingFields (snd (validateEach e is (b, p)))) = unmarked (bookingFields p)"
  using validateEach_same [OF sameDocument_refl, of e "is" b p] by (simp add: sameDocument_def)

lemma rangeViolation_iff:
  "rangeViolation e fs = Some co \<longleftrightarrow>
     (\<exists>ci a b. checkinInput fs = Some ci \<and> checkoutInput fs = Some co \<and>
        fvalue (fs ! ci) \<noteq> [] \<and> fvalue (fs ! co) \<noteq> [] \<and>
        parseDate e (fvalue (fs ! ci)) = Some a \<and> parseDate e (fvalue (fs ! co)) = Some b \<and> b \<le> a)"
  by (auto simp: rangeViolation_def split: option.splits if_splits)

lemma rangeViolation_less: "rangeViolation e fs = Some co \<Longrightarrow> co < length fs"
  using rangeViolation_iff checkoutInput_less by blast

lemma validateBookingForm_range:
  "validateBookingForm e p = (ok, p') \<Longrightarrow>
   (let fs = bookingFields p; p1 = snd (validateEach e (requiredFields fs) (True, p)) in
      (rangeViolation e fs = Some co \<longleftrightarrow>
         (\<exists>ci a b. checkinInput fs = Some ci \<and> checkoutInput fs = Some co \<and>
            fvalue (fs ! ci) \<noteq> [] \<and> fvalue (fs ! co) \<noteq> [] \<and>
            parseDate e (fvalue (fs ! ci)) = Some a \<and> parseDate e (fvalue (fs ! co)) = Some b \<and> b \<le> a)) \<and>
      (rangeViolation e fs = Some co \<longrightarrow>
         \<not> ok \<and> p' = showFieldError co rangeMessage p1 \<and>
         isInvalid (bookingFields p' ! co) \<and>
         feedback p' (parentNode (fs ! co)) = drop 1 (feedback p1 (parentNode (fs ! co))) @ [rangeMessage]) \<and>
      (rangeViolation e fs = None \<longrightarrow> (ok, p') = validateEach e (requiredFields fs) (True, p)))"
proof -
  assume v: "validateBookingForm e p = (ok, p')"
  define fs where "fs = bookingFields p"
  define r where "r = validateEach e (requiredFields fs) (True, p)"
  define p1 where "p1 = snd r"
  have same: "unmarked (bookingFields p1) = unmarked fs"
    unfolding p1_def r_def fs_def by (rule validateEach_fields)
  have rv: "rangeViolation e (bookingFields p1) = rangeViolation e fs"
    using same by (rule same_rangeViolation)
  have vb: "validateBookingForm e p =
      (case rangeViolation e fs of
         Some co \<Rightarrow> (False, showFieldError co ''Check-out date must be after check-in date'' p1)
       | None \<Rightarrow> r)"
  proof -
    obtain b q where bq: "r = (b, q)" by (cases r)
    then have q: "p1 = q" by (simp add: p1_def)
    have "validateBookingForm e p =
        (case rangeViolation e (bookingFields q) of
           Some co \<Rightarrow> (False, showFieldError co ''Check-out date must be after check-in date'' q)
         | None \<Rightarrow> (b, q))"
      using bq unfolding validateBookingForm_def fs_def [symmetric] r_def [symmetric] by simp
    then show ?thesis using rv bq q by (simp split: option.splits)
  qed
  have some: "rangeViolation e fs = Some co \<longrightarrow>
         \<not> ok \<and> p' = showFieldError co rangeMessage p1 \<and>
         isInvalid (bookingFields p' ! co) \<and>
         feedback p' (parentNode (fs ! co)) = drop 1 (feedback p1 (parentNode (fs ! co))) @ [rangeMessage]"
  proof
    assume s: "rangeViolation e fs = Some co"
    then have lt: "co < length (bookingFields p1)"
      using rangeViolation_less same same_length by metis
    have pn: "parentNode (bookingFields p1 ! co) = parentNode (fs ! co)"
    proof -
      have "co < length fs" using s by (rule rangeViolation_less)
      then have "(bookingFields p1 ! co)\<lparr>isInvalid := False\<rparr> = (fs ! co)\<lparr>isInvalid := False\<rparr>"
        using same same_nth by blast
      then have "parentNode ((bookingFields p1 ! co)\<lparr>isInvalid := False\<rparr>) = parentNode ((fs ! co)\<lparr>isInvalid := False\<rparr>)"
        by simp
      then show ?thesis by simp
    qed
    have eq: "ok = False" "p' = showFieldError co rangeMessage p1"
      using v vb s by (simp_all add: rangeMessage_def)
    show "\<not> ok \<and> p' = showFieldError co rangeMessage p1 \<and>
         isInvalid (bookingFields p' ! co) \<and>
         feedback p' (parentNode (fs ! co)) = drop 1 (feedback p1 (parentNode (fs ! co))) @ [rangeMessage]"
      using eq showFieldError_effect [OF lt, of rangeMessage] pn by simp
  qed
  have none: "rangeViolation e fs = None \<longrightarrow> (ok, p') = r"
    using v vb by auto
  show ?thesis
    unfolding Let_def fs_def [symmetric] r_def [symmetric] p1_def [symmetric]
    using rangeViolation_iff [of e fs co] some none by blast
qed

text \<open>
  C2, as stated, fails: both fields are individually invalid (each is in the past), and the
  range error is still reported on the check-out field.
\<close>

theorem range_on_invalid_fields_counterexample:
  "\<not> fst (checkField utcEnv (now pastPairPage) (bookingFields pastPairPage ! 0)) \<and>
   \<not> fst (checkField utcEnv (now pastPairPage) (bookingFields pastPairPage ! 1)) \<and>
   rangeViolation utcEnv (bookingFields pastPairPage) = Some 1 \<and>
   feedback (snd (validateBookingForm utcEnv pastPairPage)) 0 = [rangeMessage]"
  by (simp add: pastPairPage_def eval_defs)

text \<open>
  C2, amended. The range error is reported on the check-out field exactly when a check-in
  and a check-out field are found, both hold non-empty values that parse as dates, and the
  check-out date is not after the check-in date. The rule is evaluated whether or not the
  two fields are individually valid. When it fails, validation fails, the check-out field is
  marked, and the range message takes the place of the first feedback element of its
  parent; when it does not, the outcome is that of the required fields alone.
\<close>

theorem date_range_rule:
  "validateBookingForm e p = (ok, p') \<Longrightarrow>
   (let fs = bookingFields p; p1 = snd (validateEach e (requiredFields fs) (True, p)) in
      (rangeViolation e fs = Some co \<longleftrightarrow>
         (\<exists>ci a b. checkinInput fs = Some ci \<and> checkoutInput fs = Some co \<and>
            fvalue (fs ! ci) \<noteq> [] \<and> fvalue (fs ! co) \<noteq> [] \<and>
            parseDate e (fvalue (fs ! ci)) = Some a \<and> parseDate e (fvalue (fs ! co)) = Some b \<and> b \<le> a)) \<and>
      (rangeViolation e fs = Some co \<longrightarrow>
         \<not> ok \<and> p' = showFieldError co rangeMessage p1 \<and>
         isInvalid (bookingFields p' ! co) \<and>
         feedback p' (parentNode (fs ! co)) = drop 1 (feedback p1 (parentNode (fs ! co))) @ [rangeMessage]) \<and>
      (rangeViolation e fs = None \<longrightarrow> (ok, p') = validateEach e (requiredFields fs) (True, p)))"
  by (rule validateBookingForm_range)

text \<open>The rule at the two past dates.\<close>

theorem date_range_rule_witness:
  "validateBookingForm utcEnv pastPairPage =
     (False, showFieldError 1 rangeMessage
        (snd (validateEach utcEnv (requiredFields (bookingFields pastPairPage)) (True, pastPairPage)))) \<and>
   rangeViolation utcEnv (bookingFields pastPairPage) = Some 1 \<and>
   isInvalid (bookingFields (snd (validateBookingForm utcEnv pastPairPage)) ! 1)"
proof -
  obtain ok p' where v: "validateBookingForm utcEnv pastPairPage = (ok, p')"
    by (cases "validateBookingForm utcEnv pastPairPage")
  have rv: "rangeViolation utcEnv (bookingFields pastPairPage) = Some 1"
    by (simp add: pastPairPage_def eval_defs)
  have "\<not> ok \<and>
        p' = showFieldError 1 rangeMessage
               (snd (validateEach utcEnv (requiredFields (bookingFields pastPairPage)) (True, pastPairPage))) \<and>
        isInvalid (bookingFields p' ! 1)"
    using date_range_rule [OF v, of 1] rv unfolding Let_def by blast
  then show ?thesis
    using rv v by auto
qed

text \<open>
  C9, as stated, fails: the form holds exactly one \<^verbatim>\<open>datetime-local\<close> input, with a
  non-empty value, but a text input precedes it in the same parent, so it is not the first
  of its type; no check-in field is found, no range error is shown and validation succeeds.
\<close>

theorem single_datetime_sibling_counterexample:
  "length (filter isDatetimeInput (bookingFields siblingPage)) = 1 \<and>
   isDatetimeInput (bookingFields siblingPage ! 1) \<and>
   fvalue (bookingFields siblingPage ! 1) \<noteq> [] \<and>
   checkinInput (bookingFields siblingPage) = None \<and>
   checkoutInput (bookingFields siblingPage) = Some 1 \<and>
   fst (validateBookingForm utcEnv siblingPage) \<and>
   feedback (snd (validateBookingForm utcEnv siblingPage)) 0 = []"
  by (simp add: siblingPage_def eval_defs)

lemma find_upt_Some:
  assumes "i < n" "P i" "\<And>j. j < i \<Longrightarrow> \<not> P j"
  shows "find P [0..<n] = Some i"
  unfolding find_Some_iff
  by (rule exI [of _ i]) (use assms in auto)

text \<open>
  C9, amended. When the form's only \<^verbatim>\<open>datetime-local\<close> input is the only element of its type
  in its parent, and its value is non-empty and parses as a date, validation selects it as
  both the check-in and the check-out field, the date is compared with itself, validation
  fails and the range error is shown on that field.
\<close>

theorem single_datetime_input_range_error:
  assumes "i < length (bookingFields p)"
    and "isDatetimeInput (bookingFields p ! i)"
    and "\<forall>j < length (bookingFields p). j \<noteq> i \<longrightarrow>
           \<not> isDatetimeInput (bookingFields p ! j) \<and> \<not> sameTypeSibling (bookingFields p) i j"
    and "fvalue (bookingFields p ! i) \<noteq> []"
    and "parseDate e (fvalue (bookingFields p ! i)) \<noteq> None"
  shows "checkinInput (bookingFields p) = Some i \<and> checkoutInput (bookingFields p) = Some i \<and>
         rangeViolation e (bookingFields p) = Some i \<and>
         \<not> fst (validateBookingForm e p) \<and>
         isInvalid (bookingFields (snd (validateBookingForm e p)) ! i) \<and>
         last (feedback (snd (validateBookingForm e p)) (parentNode (bookingFields p ! i))) = rangeMessage"
proof -
  let ?fs = "bookingFields p"
  have first: "firstOfType ?fs i" and last: "lastOfType ?fs i"
    using assms(1,3) by (auto simp: firstOfType_def lastOfType_def list_all_iff)
  have ci: "checkinInput ?fs = Some i"
    unfolding checkinInput_def using assms(1,2,3) first by (intro find_upt_Some) auto
  have co: "checkoutInput ?fs = Some i"
    unfolding checkoutInput_def using assms(1,2,3) last by (intro find_upt_Some) auto
  obtain d where d: "parseDate e (fvalue (?fs ! i)) = Some d" using assms(5) by blast
  have rv: "rangeViolation e ?fs = Some i"
    using ci co d assms(4) by (simp add: rangeViolation_def)
  obtain ok p' where v: "validateBookingForm e p = (ok, p')"
    by (cases "validateBookingForm e p")
  have "\<not> ok \<and> isInvalid (bookingFields p' ! i) \<and>
        (\<exists>old. feedback p' (parentNode (?fs ! i)) = old @ [rangeMessage])"
    using validateBookingForm_range [OF v, of i] rv unfolding Let_def by blast
  then show ?thesis using ci co rv v by auto
qed

text \<open>The date field alone in its parent.\<close>

theorem single_datetime_input_witness:
  "checkinInput (bookingFields singleDatePage) = Some 1 \<and>
   checkoutInput (bookingFields singleDatePage) = Some 1 \<and>
   \<not> fst (validateBookingForm utcEnv singleDatePage) \<and>
   last (feedback (snd (validateBookingForm utcEnv singleDatePage)) 1) = rangeMessage"
proof -
  have a: "1 < length (bookingFields singleDatePage)"
    and b: "isDatetimeInput (bookingFields singleDatePage ! 1)"
    and c: "\<forall>j < length (bookingFields singleDatePage). j \<noteq> 1 \<longrightarrow>
             \<not> isDatetimeInput (bookingFields singleDatePage ! j) \<and>
             \<not> sameTypeSibling (bookingFields singleDatePage) 1 j"
    and d: "fvalue (bookingFields singleDatePage ! 1) \<noteq> []"
    and e: "parseDate utcEnv (fvalue (bookingFields singleDatePage ! 1)) \<noteq> None"
    by (simp_all add: singleDatePage_def eval_defs less_Suc_eq)
  have pn: "parentNode (bookingFields singleDatePage ! 1) = 1"
    by (simp add: singleDatePage_def eval_defs)
  show ?thesis
    using single_datetime_input_range_error [OF a b c d e] pn by simp
qed

section \<open>The widget registry\<close>

lemma sameDocument_modals: "sameDocument p' p \<Longrightarrow> modals p' = modals p \<and> dropdowns p' = dropdowns p"
proof -
  assume "sameDocument p' p"
  then have "p = p'\<lparr> bookingFields := bookingFields p, feedbackDivs := feedbackDivs p \<rparr>"
    by (simp add: sameDocument_def)
  then have "modals p = modals (p'\<lparr> bookingFields := bookingFields p, feedbackDivs := feedbackDivs p \<rparr>)"
        "dropdowns p = dropdowns (p'\<lparr> bookingFields := bookingFields p, feedbackDivs := feedbackDivs p \<rparr>)"
    by simp_all
  then show ?thesis by simp
qed

lemma validateBookingForm_same: "sameDocument (snd (validateBookingForm e p)) p"
proof -
  obtain b q where r: "validateEach e (requiredFields (bookingFields p)) (True, p) = (b, q)"
    by (cases "validateEach e (requiredFields (bookingFields p)) (True, p)")
  have q: "sameDocument q p"
    using validateEach_same [OF sameDocument_refl, of e "requiredFields (bookingFields p)" True p] r by simp
  show ?thesis
    using r q sameDocument_trans [OF showFieldError_same q]
    by (simp add: validateBookingForm_def split: option.splits)
qed

lemma runTask_registry: "modals (runTask e k p) = modals p \<and> dropdowns (runTask e k p) = dropdowns p"
  by (cases k)
     (simp_all add: showNotification_def hideNotification_def hide_def Let_def
           split: option.splits widget.splits prod.splits)

lemma advanceTo_registry: "modals (advanceTo e t p) = modals p \<and> dropdowns (advanceTo e t p) = dropdowns p"
proof (induction e t p rule: advanceTo.induct)
  case (1 e t p)
  show ?case
  proof (cases "nextTimer (timers p)")
    case None
    then show ?thesis by (subst advanceTo.simps, simp)+
  next
    case (Some x)
    show ?thesis
    proof (cases "fst x \<le> t")
      case True
      have "advanceTo e t p = advanceTo e t (fire e x p)"
        using Some True by (subst advanceTo.simps) simp
      then show ?thesis
        using "1.IH" [OF Some True] by (simp add: fire_def runTask_registry)
    next
      case False
      have "advanceTo e t p = p\<lparr> now := max (now p) t \<rparr>"
        using Some False by (subst advanceTo.simps) simp
      then show ?thesis by simp
    qed
  qed
qed

lemma step_registry: "modals (step e ev p) = modals p \<and> dropdowns (step e ev p) = dropdowns p"
proof (cases ev)
  case (Blur i)
  then show ?thesis using sameDocument_modals [OF validateField_same, of e i p] by simp
next
  case (Input i v)
  then show ?thesis by (simp add: clearFieldError_def Let_def)
next
  case SubmitBooking
  obtain ok q where v: "validateBookingForm e p = (ok, q)" by (cases "validateBookingForm e p")
  then have "modals q = modals p \<and> dropdowns q = dropdowns p"
    using sameDocument_modals [OF validateBookingForm_same, of e p] by simp
  then show ?thesis using SubmitBooking v
    by (simp add: handleBookingSubmission_def submitBookingForm_def Let_def)
next
  case SubmitNewsletter
  then show ?thesis
    by (simp add: handleNewsletterSubmission_def showNotification_def Let_def split: option.splits)
next
  case (Wait d)
  then show ?thesis by (simp add: advanceTo_registry)
qed (simp_all add: showNotification_def hideNotification_def Let_def)

lemma run_snoc: "run e (evs @ [ev]) p = step e ev (run e evs p)"
  by (simp add: run_def)

lemma run_registry: "modals (run e evs p) = modals p \<and> dropdowns (run e evs p) = dropdowns p"
  by (induction evs rule: rev_induct) (simp_all add: run_snoc step_registry, simp add: run_def)

lemma register_last:
  assumes "i < n" and "\<And>j. i < j \<Longrightarrow> j < n \<Longrightarrow> key j \<noteq> key i"
  shows "foldl (\<lambda>m i. m(key i \<mapsto> val i)) m0 [0..<n] (key i) = Some (val i)"
proof -
  define R where "R = (\<lambda>n. foldl (\<lambda>m i. m(key i \<mapsto> val i)) m0 [0..<n])"
  have R: "R (Suc n) k = (if k = key n then Some (val n) else R n k)" for n k
    by (simp add: R_def)
  have "i < n \<Longrightarrow> (\<forall>j. i < j \<and> j < n \<longrightarrow> key j \<noteq> key i) \<Longrightarrow> R n (key i) = Some (val i)"
  proof (induction n)
    case 0
    then show ?case by simp
  next
    case (Suc n)
    show ?case
    proof (cases "i = n")
      case True
      then show ?thesis by (simp add: R)
    next
      case False
      then have lt: "i < n" using Suc.prems(1) by simp
      then have ne: "key i \<noteq> key n" using Suc.prems(2) by auto
      have "R n (key i) = Some (val i)"
        using Suc.IH lt Suc.prems(2) by simp
      then show ?thesis using ne by (simp add: R)
    qed
  qed
  then show ?thesis using assms unfolding R_def by blast
qed

lemma register_lookup:
  assumes "foldl (\<lambda>m i. m(key i \<mapsto> val i)) m0 [0..<n] k = Some w"
  shows "m0 k = Some w \<or> (\<exists>i<n. key i = k \<and> w = val i)"
proof -
  define R where "R = (\<lambda>n. foldl (\<lambda>m i. m(key i \<mapsto> val i)) m0 [0..<n])"
  have R: "R (Suc n) k = (if k = key n then Some (val n) else R n k)" for n k
    by (simp add: R_def)
  have R0: "R 0 = m0" by (simp add: R_def)
  have "R n k = Some w \<Longrightarrow> m0 k = Some w \<or> (\<exists>i<n. key i = k \<and> w = val i)"
  proof (induction n)
    case 0
    then show ?case by (simp add: R0)
  next
    case (Suc n)
    show ?case
    proof (cases "k = key n")
      case True
      then have "w = val n" using Suc.prems by (simp add: R)
      then show ?thesis using True by auto
    next
      case False
      then have "R n k = Some w" using Suc.prems by (simp add: R)
      then show ?thesis using Suc.IH by (auto simp: less_Suc_eq)
    qed
  qed
  then show ?thesis using assms unfolding R_def by blast
qed

text \<open>
  C8, as stated, fails: two dropdown toggles without an id and with the same class name
  share one key, and the registry holds under it the handle of the second toggle only.
\<close>

theorem registry_duplicate_key_counterexample:
  "(let q = construct (widgetPage [] twoToggles) in
      dropdownKey (twoToggles ! 0) = ''nav-link dropdown-toggle'' \<and>
      dropdowns q (dropdownKey (twoToggles ! 0)) = Some (Dropdown 1) \<and>
      dropdowns q (dropdownKey (twoToggles ! 0)) \<noteq> Some (Dropdown 0))"
  by (simp add: construct_def setupComponents_def initializeModals_def initializeDropdowns_def
        widgetPage_def formPage_def twoToggles_def dropdownKey_def Let_def)

text \<open>
  C8, amended. After initialization the registry holds the handle of every modal element
  under its id, and of every dropdown toggle under its id or, without one, its class name,
  provided no later element of the same kind has the same key. After any sequence of
  events, among them elements added to the page, the two maps are what initialization made
  them: every entry is the handle of an element discovered at page-ready under that
  element's key, nothing is removed or rebuilt, and an added element gets no handle.
\<close>

theorem registry_after_construct:
  "(let q = construct p; ms = modalElements p; ds = dropdownElements p in
      (\<forall>i<length ms. (\<forall>j<length ms. i < j \<longrightarrow> modalId (ms ! j) \<noteq> modalId (ms ! i)) \<longrightarrow>
          modals q (modalId (ms ! i)) = Some (Modal i)) \<and>
      (\<forall>i<length ds. (\<forall>j<length ds. i < j \<longrightarrow> dropdownKey (ds ! j) \<noteq> dropdownKey (ds ! i)) \<longrightarrow>
          dropdowns q (dropdownKey (ds ! i)) = Some (Dropdown i)) \<and>
      (\<forall>k w. modals (run e evs q) k = Some w \<longrightarrow> (\<exists>i<length ms. w = Modal i \<and> modalId (ms ! i) = k)) \<and>
      (\<forall>k w. dropdowns (run e evs q) k = Some w \<longrightarrow>
          (\<exists>i<length ds. w = Dropdown i \<and> dropdownKey (ds ! i) = k)) \<and>
      modals (run e evs q) = modals q \<and> dropdowns (run e evs q) = dropdowns q)"
proof -
  define q where "q = construct p"
  define ms where "ms = modalElements p"
  define ds where "ds = dropdownElements p"
  have m: "modals q = foldl (\<lambda>m i. m(modalId (ms ! i) \<mapsto> Modal i)) Map.empty [0..<length ms]"
    by (simp add: q_def ms_def construct_def setupComponents_def initializeModals_def initializeDropdowns_def)
  have d: "dropdowns q = foldl (\<lambda>m i. m(dropdownKey (ds ! i) \<mapsto> Dropdown i)) Map.empty [0..<length ds]"
    by (simp add: q_def ds_def construct_def setupComponents_def initializeModals_def initializeDropdowns_def)
  have a: "\<forall>i<length ms. (\<forall>j<length ms. i < j \<longrightarrow> modalId (ms ! j) \<noteq> modalId (ms ! i)) \<longrightarrow>
          modals q (modalId (ms ! i)) = Some (Modal i)"
    unfolding m by (intro allI impI register_last) auto
  have b: "\<forall>i<length ds. (\<forall>j<length ds. i < j \<longrightarrow> dropdownKey (ds ! j) \<noteq> dropdownKey (ds ! i)) \<longrightarrow>
          dropdowns q (dropdownKey (ds ! i)) = Some (Dropdown i)"
    unfolding d by (intro allI impI register_last) auto
  have r: "modals (run e evs q) = modals q" "dropdowns (run e evs q) = dropdowns q"
    by (simp_all add: run_registry)
  have c: "\<forall>k w. modals (run e evs q) k = Some w \<longrightarrow> (\<exists>i<length ms. w = Modal i \<and> modalId (ms ! i) = k)"
    unfolding r m using register_lookup [of "\<lambda>i. modalId (ms ! i)" Modal Map.empty "length ms"] by fastforce
  have c': "\<forall>k w. dropdowns (run e evs q) k = Some w \<longrightarrow>
          (\<exists>i<length ds. w = Dropdown i \<and> dropdownKey (ds ! i) = k)"
    unfolding r d using register_lookup [of "\<lambda>i. dropdownKey (ds ! i)" Dropdown Map.empty "length ds"] by fastforce
  show ?thesis
    unfolding Let_def q_def [symmetric] ms_def [symmetric] ds_def [symmetric]
    using a b c c' r by blast
qed

text \<open>A modal and a toggle discovered at page-ready, and a modal added later.\<close>

theorem registry_witness:
  "(let p = widgetPage [\<lparr> modalId = ''bookingModal'', shown = False \<rparr>]
                       [\<lparr> dropdownId = [], dropdownClass = ''nav-link dropdown-toggle'' \<rparr>];
        q' = run utcEnv [AddModal \<lparr> modalId = ''lateModal'', shown = False \<rparr>, Notify ''hello'' ''info'', Wait 6000]
               (construct p)
    in modals q' ''bookingModal'' = Some (Modal 0) \<and>
       dropdowns q' ''nav-link dropdown-toggle'' = Some (Dropdown 0) \<and>
       modals q' ''lateModal'' = None)"
proof -
  define p where "p = widgetPage [\<lparr> modalId = ''bookingModal'', shown = False \<rparr>]
                       [\<lparr> dropdownId = [], dropdownClass = ''nav-link dropdown-toggle'' \<rparr>]"
  define evs where "evs = [AddModal \<lparr> modalId = ''lateModal'', shown = False \<rparr>, Notify ''hello'' ''info'', Wait 6000]"
  define q' where "q' = run utcEnv evs (construct p)"
  have ms: "modalElements p = [\<lparr> modalId = ''bookingModal'', shown = False \<rparr>]"
    and ds: "dropdownElements p = [\<lparr> dropdownId = [], dropdownClass = ''nav-link dropdown-toggle'' \<rparr>]"
    by (simp_all add: p_def widgetPage_def)
  note t = registry_after_construct [of p utcEnv evs, unfolded Let_def ms ds, folded q'_def]
  have 1: "modals (construct p) ''bookingModal'' = Some (Modal 0)"
    using t by simp
  have 2: "dropdowns (construct p) ''nav-link dropdown-toggle'' = Some (Dropdown 0)"
    using t by (simp add: dropdownKey_def)
  have 3: "modals q' = modals (construct p)" "dropdowns q' = dropdowns (construct p)"
    using t by blast+
  have 4: "\<forall>k w. modals q' k = Some w \<longrightarrow>
             (\<exists>i<length [\<lparr> modalId = ''bookingModal'', shown = False \<rparr>]. w = Modal i \<and>
                 modalId ([\<lparr> modalId = ''bookingModal'', shown = False \<rparr>] ! i) = k)"
    using t by blast
  have 5: "modals q' ''lateModal'' = None"
  proof (cases "modals q' ''lateModal''")
    case None
    then show ?thesis .
  next
    case (Some w)
    then show ?thesis using 4 by fastforce
  qed
  show ?thesis
    unfolding Let_def p_def [symmetric] evs_def [symmetric] q'_def [symmetric]
    using 1 2 3 5 by simp
qed

section \<open>Timeouts\<close>












section \<open>Notifications of plain text\<close>


lemma afterFirst_markup: "afterFirst messageOpen (markupBefore @ tail) = Some tail"
  by (simp add: markupBefore_def messageOpen_def nl_def spaces_def eval_nat_numeral)





lemma filter_not_member: "filter (\<lambda>n. n \<notin> set ns) ns = []"
  by (simp add: filter_empty_conv)


section \<open>The callbacks of the two submissions\<close>

















section \<open>Submission of the booking form\<close>




text \<open>
  C3 fails in the code. The email field fails validation, the submission is aborted and
  the field is marked, but no message is shown: the valid field validated after it lies in
  the same parent, and clearing that field's error removes the first feedback element
  found below the parent, which is the message of the email field. The same happens when
  the email field lies in a wrapper of its own inside the parent of the valid field.
\<close>

theorem shared_parent_message_removed:
  "\<not> fst (checkField utcEnv (now sharedParentPage) (bookingFields sharedParentPage ! 0)) \<and>
   snd (checkField utcEnv (now sharedParentPage) (bookingFields sharedParentPage ! 0)) =
     ''Please enter a valid email address'' \<and>
   fst (checkField utcEnv (now sharedParentPage) (bookingFields sharedParentPage ! 1)) \<and>
   feedback (snd (validateField utcEnv 0 sharedParentPage)) 0 = [''Please enter a valid email address''] \<and>
   fst (handleBookingSubmission utcEnv sharedParentPage) = None \<and>
   isInvalid (bookingFields (snd (handleBookingSubmission utcEnv sharedParentPage)) ! 0) \<and>
   feedbackDivs (snd (handleBookingSubmission utcEnv sharedParentPage)) = [] \<and>
   feedback (snd (validateField utcEnv 0 nestedParentPage)) 1 = [''Please enter a valid email address''] \<and>
   fst (handleBookingSubmission utcEnv nestedParentPage) = None \<and>
   isInvalid (bookingFields (snd (handleBookingSubmission utcEnv nestedParentPage)) ! 0) \<and>
   feedbackDivs (snd (handleBookingSubmission utcEnv nestedParentPage)) = []"
  by (simp add: sharedParentPage_def nestedParentPage_def handleBookingSubmission_def eval_defs
        emailRegex_def RPlus_def split: prod.splits)












section \<open>Newsletter subscription\<close>








section \<open>Notifications: one at a time, and removed once dismissed\<close>





section \<open>The message of a notification\<close>

text \<open>
  C10. The message is interpolated into the markup as it is: a message without markup
  characters is shown verbatim (\<open>messageText_plain\<close>), but for the message \<^verbatim>\<open><b>x</b>\<close> the
  notification shows the text \<^verbatim>\<open>x\<close>, inside an element the message created.
\<close>

theorem message_markup_not_verbatim:
  "map (messageText \<circ> innerHTML) (notifications (fst (showNotification e ''<b>x</b>'' ''info'' p))) = [Some ''x''] \<and>
   ''x'' \<noteq> ''<b>x</b>''"
proof -
  have "scan Data [] [] (''<b>x</b>'' @ markupAfter) = Some ''x''"
    by (simp add: markupAfter_def isLower_def plainChar_def phrasing_def)
  then have "messageText (notificationMarkup ''<b>x</b>'') = Some ''x''"
    by (simp add: messageText_def notificationMarkup_def afterFirst_markup)
  then show ?thesis by (simp add: showNotification_def Let_def filter_not_member)
qed

end
